theory Spec2Isabelle
  imports Main
begin

section \<open>Module parameters and failures\<close>

text \<open>
  The module under study is \<^verbatim>\<open>library/firewall_lib.py\<close>: two parsing helpers and one
  long \<^verbatim>\<open>main()\<close>.  \<^verbatim>\<open>module.fail_json(msg=...)\<close> ends the run, so every call site
  of it is one constructor of \<open>error\<close>; \<open>ValueError\<close> is the uncaught Python exception
  of a tuple assignment whose right-hand side has the wrong number of items.
\<close>

datatype error =
    NoBackendImported
    (* "No firewall backend could be imported." (238) and "No firewalld" (345) *)
  | ImproperPortFormat
    (* "improper port format (missing protocol?)" (183) *)
  | ImproperForwardPortFormat string
    (* "improper forward_port format: <item>" (194) *)
  | ImproperForwardPortProtocol
    (* "improper forward_port format (missing protocol?)" (198) *)
  | RichRuleNotValid string
    (* "Rich Rule '<item>' is not valid: ..." (258) *)
  | NoPlaneEnabled
    (* "One of permanent, runtime or offline needs to be enabled" (277) *)
  | NothingSet
    (* "One of service, port, ... target or zone needs to be set" (296) *)
  | TimeoutWithDisabled
    (* "timeout can not be used with state: disabled" (305) *)
  | MasqueradeWithDisabled
    (* "masquerade can not be used with state: disabled" (307) *)
  | IcmpBlockInversionWithDisabled
    (* "icmp_block_inversion can not be used with state: disabled" (310) *)
  | TimeoutIcmpBlockInversionOnly
    (* "timeout can not be used with icmp_block_inverson only" (332) *)
  | TimeoutSourceOnly
    (* "timeout can not be used with source only" (337) *)
  | TimeoutInterfaceOnly
    (* "timeout can not be used with interface only" (340) *)
  | TimeoutTargetOnly
    (* "timeout can not be used with target only" (343) *)
  | OfflineDeclined
    (* "Firewalld is not running and offline operation is declined." (353) *)
  | UnsupportedVersionOffline
    (* "Unsupported firewalld version ..., offline operation requires >= 0.3.9" (364) *)
  | UnsupportedVersion
    (* "Unsupported firewalld version ..., requires >= 0.2.11" (384) *)
  | PermanentZoneMissing string
    (* "Permanent zone '<zone>' does not exist." (400, 415) *)
  | RuntimeZoneMissing string
    (* "Runtime zone '<zone>' does not exist." (413) *)
  | ValueError
    (* uncaught exception of "a, b = xs" when len(xs) is not 2 (181, 196) *)

text \<open>The error kinds the specification names, as sets of failure sites.\<close>

definition FormatError :: "error set" where
  "FormatError = {ImproperPortFormat, ImproperForwardPortProtocol} \<union> range ImproperForwardPortFormat"

definition NoPlaneSelected :: "error set" where
  "NoPlaneSelected = {NoPlaneEnabled}"

definition EmptyRequest :: "error set" where
  "EmptyRequest = {NothingSet}"

definition IncompatibleWithDisabled :: "error set" where
  "IncompatibleWithDisabled =
     {TimeoutWithDisabled, MasqueradeWithDisabled, IcmpBlockInversionWithDisabled}"

definition TimeoutNotApplicable :: "error set" where
  "TimeoutNotApplicable =
     {TimeoutIcmpBlockInversionOnly, TimeoutSourceOnly, TimeoutInterfaceOnly, TimeoutTargetOnly}"

text \<open>\<^verbatim>\<open>state\<close> has \<^verbatim>\<open>choices=["enabled", "disabled"]\<close> and is required.\<close>

datatype presence = Enabled | Disabled

text \<open>
  \<^verbatim>\<open>module.params\<close> and, after lines 241 to 269, the local variables of the same names.
  The two differ only in the items of \<^verbatim>\<open>port\<close>, \<^verbatim>\<open>source_port\<close> (a string, then a
  pair) and \<^verbatim>\<open>forward_port\<close> (a string, then a 4-tuple).  A parameter whose default is
  \<^verbatim>\<open>None\<close> is an option.
\<close>

record ('p, 'f) request =
  service :: "string list"
  port :: "'p list"
  source_port :: "'p list"
  forward_port :: "'f list"
  masquerade :: "bool option"
  rich_rule :: "string list"
  source :: "string list"
  interface :: "string list"
  icmp_block :: "string list"
  icmp_block_inversion :: "bool option"
  timeout :: int
  target :: "string option"
  zone :: "string option"
  permanent :: "bool option"
  runtime :: "bool option"
  offline :: "bool option"
  state :: presence

type_synonym port_proto = "string \<times> string"
type_synonym forward = "string \<times> string \<times> string option \<times> string option"
type_synonym params = "(string, string) request"
type_synonym locals = "(port_proto, forward) request"

text \<open>Python truth value of an optional bool: \<^verbatim>\<open>None\<close> and \<^verbatim>\<open>False\<close> are false.\<close>

definition truthy :: "bool option \<Rightarrow> bool" where
  "truthy b = (b = Some True)"

section \<open>Parsing (lines 180 to 204)\<close>

text \<open>\<^verbatim>\<open>str.split(sep)\<close> for a one-character separator: one more piece than separators.\<close>

fun split_on :: "char \<Rightarrow> string \<Rightarrow> string list" where
  "split_on c [] = [[]]"
| "split_on c (x # xs) =
     (if x = c then [] # split_on c xs
      else (case split_on c xs of [] \<Rightarrow> [[x]] | w # ws \<Rightarrow> (x # w) # ws))"

text \<open>\<^verbatim>\<open>x is None\<close> for \<open>x\<close> an item of a \<^verbatim>\<open>split\<close>: a \<^verbatim>\<open>str\<close> is never \<^verbatim>\<open>None\<close>.\<close>

definition is_None :: "string \<Rightarrow> bool" where
  "is_None x = False"

definition parse_port :: "string \<Rightarrow> error + port_proto" where
  "parse_port item =
     (case split_on CHR ''/'' item of
        [p, proto] \<Rightarrow> if is_None proto then Inl ImproperPortFormat else Inr (p, proto)
      | _ \<Rightarrow> Inl ValueError)"

definition empty_to_None :: "string \<Rightarrow> string option" where
  "empty_to_None x = (if x = [] then None else Some x)"

definition parse_forward_port :: "string \<Rightarrow> error + forward" where
  "parse_forward_port item =
     (case split_on CHR '';'' item of
        [pp, to_port, to_addr] \<Rightarrow>
          (case split_on CHR ''/'' pp of
             [p, proto] \<Rightarrow>
               if is_None proto then Inl ImproperForwardPortProtocol
               else Inr (p, proto, empty_to_None to_port, empty_to_None to_addr)
           | _ \<Rightarrow> Inl ValueError)
      | _ \<Rightarrow> Inl (ImproperForwardPortFormat item))"

text \<open>A \<^verbatim>\<open>for\<close> loop that appends \<open>f item\<close> and stops at the first failure.\<close>

fun collect :: "('a \<Rightarrow> error + 'b) \<Rightarrow> 'a list \<Rightarrow> error + 'b list" where
  "collect f [] = Inr []"
| "collect f (x # xs) =
     (case f x of
        Inl e \<Rightarrow> Inl e
      | Inr y \<Rightarrow> (case collect f xs of Inl e \<Rightarrow> Inl e | Inr ys \<Rightarrow> Inr (y # ys)))"

section \<open>The firewall backend\<close>

datatype plane = Runtime | Permanent

text \<open>
  One value per thing that can be present in a zone: what the \<^verbatim>\<open>query*\<close>, \<^verbatim>\<open>add*\<close>
  and \<^verbatim>\<open>remove*\<close> methods take after the zone.
\<close>

datatype entry =
    EService string
  | EPort string string
  | ESourcePort string string
  | EForwardPort string string "string option" "string option"
  | EMasquerade
  | ERichRule string
  | ESource string
  | EInterface string
  | EIcmpBlock string
  | EIcmpBlockInversion

datatype call =
    Connect
  | Query plane entry bool
  | Add plane entry "int option"
  | Remove plane entry
  | GetTarget string
  | SetTarget string
  | Commit

text \<open>
  What \<^verbatim>\<open>main\<close> reads from its environment.  \<open>runtime_plane z\<close> is the state behind the
  handle \<^verbatim>\<open>fw\<close> for zone \<open>z\<close>, \<open>permanent_plane z\<close> the stored settings of the zone and
  its target.  \<open>rich_rule_str\<close> is \<^verbatim>\<open>str(Rich_Rule(rule_str=item))\<close>, \<open>None\<close> when it
  raises.  \<open>fw_version\<close> is \<^verbatim>\<open>FW_VERSION\<close> as \<^verbatim>\<open>LooseVersion\<close> splits it.
  When firewalld is not running, \<^verbatim>\<open>fw\<close> becomes an in-process firewall object (lines
  369 to 380); what it answers for a zone is the same field \<open>runtime_plane\<close>.
\<close>

record backend =
  has_firewalld :: bool
  fw_version :: "nat list"
  connected :: bool
  default_zone :: string
  runtime_zones :: "string list"
  permanent_zones :: "string list"
  rich_rule_str :: "string \<Rightarrow> string option"
  runtime_plane :: "string \<Rightarrow> entry set"
  permanent_plane :: "string \<Rightarrow> entry set \<times> string"

text \<open>Comparison of two version lists, as Python compares lists.\<close>

fun version_less :: "nat list \<Rightarrow> nat list \<Rightarrow> bool" where
  "version_less [] [] = False"
| "version_less [] (y # ys) = True"
| "version_less (x # xs) [] = False"
| "version_less (x # xs) (y # ys) = (x < y \<or> (x = y \<and> version_less xs ys))"

text \<open>
  The variables the modification part of \<^verbatim>\<open>main\<close> (from line 424) works on:
  \<^verbatim>\<open>changed\<close>, the zone's state behind \<^verbatim>\<open>fw\<close>, the settings object \<^verbatim>\<open>fw_settings\<close>
  with its target, and the calls made so far.
\<close>

record rstate =
  changed :: bool
  fw :: "entry set"
  fw_settings :: "entry set"
  fw_target :: string
  calls :: "call list"

text \<open>
  Modelled from the spec: the firewalld client library (\<^verbatim>\<open>FirewallClient\<close>,
  \<^verbatim>\<open>FirewallClientZoneSettings\<close>) is imported, not part of the repository.  As the
  specification's Plane Accessor: a query says whether the entry is present on the
  plane, an add makes it present, a remove makes it absent, and nothing else changes.
\<close>

definition query :: "plane \<Rightarrow> entry \<Rightarrow> rstate \<Rightarrow> bool" where
  "query pl e s = (case pl of Runtime \<Rightarrow> e \<in> fw s | Permanent \<Rightarrow> e \<in> fw_settings s)"

definition log_call :: "call \<Rightarrow> rstate \<Rightarrow> rstate" where
  "log_call c s = s\<lparr>calls := calls s @ [c]\<rparr>"

definition add_entry :: "plane \<Rightarrow> entry \<Rightarrow> int option \<Rightarrow> rstate \<Rightarrow> rstate" where
  "add_entry pl e tmo s =
     log_call (Add pl e tmo)
       (case pl of
          Runtime \<Rightarrow> s\<lparr>fw := insert e (fw s)\<rparr>
        | Permanent \<Rightarrow> s\<lparr>fw_settings := insert e (fw_settings s)\<rparr>)"

definition remove_entry :: "plane \<Rightarrow> entry \<Rightarrow> rstate \<Rightarrow> rstate" where
  "remove_entry pl e s =
     log_call (Remove pl e)
       (case pl of
          Runtime \<Rightarrow> s\<lparr>fw := fw s - {e}\<rparr>
        | Permanent \<Rightarrow> s\<lparr>fw_settings := fw_settings s - {e}\<rparr>)"

definition set_target :: "string \<Rightarrow> rstate \<Rightarrow> rstate" where
  "set_target t s = log_call (SetTarget t) (s\<lparr>fw_target := t\<rparr>)"

section \<open>Validation (lines 271 to 343)\<close>

text \<open>Lines 241 to 269: the port strings are parsed and the rich rules normalised.\<close>

definition parse_rich_rule :: "backend \<Rightarrow> string \<Rightarrow> error + string" where
  "parse_rich_rule env item =
     (case rich_rule_str env item of None \<Rightarrow> Inl (RichRuleNotValid item) | Some r \<Rightarrow> Inr r)"

text \<open>The locals once the four parsed lists are known; every other one is the parameter.\<close>

definition locals_of ::
  "params \<Rightarrow> port_proto list \<Rightarrow> port_proto list \<Rightarrow> forward list \<Rightarrow> string list \<Rightarrow> locals" where
  "locals_of p ports source_ports forward_ports rich_rules =
     \<lparr>service = service p, port = ports, source_port = source_ports,
      forward_port = forward_ports, masquerade = masquerade p, rich_rule = rich_rules,
      source = source p, interface = interface p, icmp_block = icmp_block p,
      icmp_block_inversion = icmp_block_inversion p, timeout = timeout p,
      target = target p, zone = zone p, permanent = permanent p, runtime = runtime p,
      offline = offline p, state = state p\<rparr>"

definition read_params :: "backend \<Rightarrow> params \<Rightarrow> error + locals" where
  "read_params env p =
     (case collect parse_port (port p) of
        Inl e \<Rightarrow> Inl e
      | Inr ports \<Rightarrow>
     (case collect parse_port (source_port p) of
        Inl e \<Rightarrow> Inl e
      | Inr source_ports \<Rightarrow>
     (case collect parse_forward_port (forward_port p) of
        Inl e \<Rightarrow> Inl e
      | Inr forward_ports \<Rightarrow>
     (case collect (parse_rich_rule env) (rich_rule p) of
        Inl e \<Rightarrow> Inl e
      | Inr rich_rules \<Rightarrow> Inr (locals_of p ports source_ports forward_ports rich_rules)))))"

text \<open>
  Lines 271 to 279.  \<^verbatim>\<open>runtime is not None and not runtime\<close> is \<open>runtime v = Some False\<close>.
\<close>

definition select_planes :: "locals \<Rightarrow> error + locals" where
  "select_planes v =
     (if permanent v = None then Inr (v\<lparr>runtime := Some True\<rparr>)
      else if \<not> truthy (permanent v) then
        (if runtime v = Some False \<and> offline v = Some False then Inl NoPlaneEnabled else Inr v)
      else Inr v)"

text \<open>The three flags for which line 277 fails.\<close>

definition no_plane :: "locals \<Rightarrow> bool" where
  "no_plane v = (permanent v = Some False \<and> runtime v = Some False \<and> offline v = Some False)"

text \<open>Lines 281 to 300.\<close>

definition nothing_set :: "locals \<Rightarrow> bool" where
  "nothing_set v =
     (masquerade v = None \<and> icmp_block_inversion v = None \<and> target v = None \<and> zone v = None
      \<and> length (service v) + length (port v) + length (source_port v)
          + length (forward_port v) + length (rich_rule v) + length (source v)
          + length (interface v) + length (icmp_block v) = 0)"

text \<open>Lines 302 to 317 (the check on \<^verbatim>\<open>target\<close> is commented out in the source).\<close>

definition check_disabled :: "locals \<Rightarrow> error option" where
  "check_disabled v =
     (if state v = Disabled then
        (if timeout v > 0 then Some TimeoutWithDisabled
         else if truthy (masquerade v) then Some MasqueradeWithDisabled
         else if truthy (icmp_block_inversion v) then Some IcmpBlockInversionWithDisabled
         else None)
      else None)"

text \<open>Lines 319 to 343.  \<^verbatim>\<open>masquerade or n > 0\<close> is true when either operand is.\<close>

definition timeout_ok :: "locals \<Rightarrow> bool" where
  "timeout_ok v =
     (truthy (masquerade v)
      \<or> length (service v) + length (port v) + length (source_port v)
          + length (forward_port v) + length (rich_rule v) + length (icmp_block v) > 0)"

definition check_timeout :: "locals \<Rightarrow> error option" where
  "check_timeout v =
     (if timeout v > 0 then
        (if icmp_block_inversion v \<noteq> None \<and> \<not> timeout_ok v then Some TimeoutIcmpBlockInversionOnly
         else if length (source v) > 0 \<and> \<not> timeout_ok v then Some TimeoutSourceOnly
         else if length (interface v) > 0 \<and> \<not> timeout_ok v then Some TimeoutInterfaceOnly
         else if target v \<noteq> None \<and> \<not> timeout_ok v then Some TimeoutTargetOnly
         else None)
      else None)"

text \<open>Lines 271 to 343 in order; the result carries the \<^verbatim>\<open>runtime\<close> of line 272.\<close>

definition validate :: "locals \<Rightarrow> error + locals" where
  "validate v =
     (case select_planes v of
        Inl e \<Rightarrow> Inl e
      | Inr v1 \<Rightarrow>
          if nothing_set v1 then Inl NothingSet
          else (case check_disabled v1 of
                  Some e \<Rightarrow> Inl e
                | None \<Rightarrow> (case check_timeout v1 of Some e \<Rightarrow> Inl e | None \<Rightarrow> Inr v1)))"

section \<open>Connecting and choosing the zone (lines 345 to 420)\<close>

text \<open>
  Lines 350 to 392: the result is \<^verbatim>\<open>fw_offline\<close> and the locals, with \<^verbatim>\<open>runtime\<close> and
  \<^verbatim>\<open>permanent\<close> overwritten when firewalld is not running.
\<close>

definition connect :: "backend \<Rightarrow> locals \<Rightarrow> error + bool \<times> locals" where
  "connect env v =
     (if \<not> connected env then
        (if \<not> truthy (offline v) then Inl OfflineDeclined
         else if version_less (fw_version env) [0, 3, 9] then Inl UnsupportedVersionOffline
         else Inr (True, v\<lparr>runtime := Some False, permanent := Some True\<rparr>))
      else if version_less (fw_version env) [0, 2, 11] then Inl UnsupportedVersion
      else Inr (False, v))"

text \<open>Lines 394 to 420: the zone the run works on.\<close>

definition choose_zone :: "backend \<Rightarrow> bool \<Rightarrow> locals \<Rightarrow> error + string" where
  "choose_zone env fw_offline v =
     (case zone v of
        None \<Rightarrow> Inr (default_zone env)
      | Some z \<Rightarrow>
          if fw_offline then
            (if z \<notin> set (permanent_zones env) then Inl (PermanentZoneMissing z) else Inr z)
          else if truthy (runtime v) \<and> z \<notin> set (runtime_zones env) then Inl (RuntimeZoneMissing z)
          else if truthy (permanent v) \<and> z \<notin> set (permanent_zones env)
            then Inl (PermanentZoneMissing z)
          else Inr z)"

section \<open>Firewall modification (lines 424 to 668)\<close>

text \<open>
  The block the source repeats for every kind and plane when the entry is wanted:
  \<^verbatim>\<open>if <gate> and not query(e): if not module.check_mode: add(e); changed = True\<close>.
  The query is made only when the gate is true (\<^verbatim>\<open>and\<close> short-circuits).
\<close>

definition add_if_absent ::
  "bool \<Rightarrow> bool \<Rightarrow> plane \<Rightarrow> entry \<Rightarrow> int option \<Rightarrow> rstate \<Rightarrow> rstate" where
  "add_if_absent check_mode gate pl e tmo s =
     (if \<not> gate then s
      else if query pl e s then log_call (Query pl e True) s
      else if check_mode then (log_call (Query pl e False) s)\<lparr>changed := True\<rparr>
      else (add_entry pl e tmo (log_call (Query pl e False) s))\<lparr>changed := True\<rparr>)"

text \<open>
  The block for an unwanted entry:
  \<^verbatim>\<open>if <gate> and query(e): if not module.check_mode: remove(e); changed = True\<close>.
  \<open>sets_changed\<close> says whether the block has the last statement.
\<close>

definition remove_if_present ::
  "bool \<Rightarrow> bool \<Rightarrow> bool \<Rightarrow> plane \<Rightarrow> entry \<Rightarrow> rstate \<Rightarrow> rstate" where
  "remove_if_present check_mode gate sets_changed pl e s =
     (if \<not> gate then s
      else if \<not> query pl e s then log_call (Query pl e False) s
      else if check_mode
        then (log_call (Query pl e True) s)\<lparr>changed := (sets_changed \<or> changed s)\<rparr>
      else (remove_entry pl e (log_call (Query pl e True) s))
             \<lparr>changed := (sets_changed \<or> changed s)\<rparr>)"

text \<open>
  The body every kind has: the runtime block, then the permanent block, adding when
  \<open>wanted\<close> and removing otherwise.  \<open>rt_gate\<close> and \<open>pm_gate\<close> are the two gates,
  \<open>rt_tmo\<close> the timeout argument of the runtime add (none for the kinds that take
  none), and \<open>rt_rm_changed\<close> whether the runtime removal sets \<^verbatim>\<open>changed\<close>.
\<close>

definition on_both_planes ::
  "bool \<Rightarrow> bool \<Rightarrow> bool \<Rightarrow> bool \<Rightarrow> int option \<Rightarrow> bool \<Rightarrow> entry \<Rightarrow> rstate \<Rightarrow> rstate" where
  "on_both_planes check_mode wanted rt_gate pm_gate rt_tmo rt_rm_changed e s =
     (if wanted then
        add_if_absent check_mode pm_gate Permanent e None
          (add_if_absent check_mode rt_gate Runtime e rt_tmo s)
      else
        remove_if_present check_mode pm_gate True Permanent e
          (remove_if_present check_mode rt_gate rt_rm_changed Runtime e s))"

text \<open>Lines 427 to 444: the runtime removal of a service does not set \<^verbatim>\<open>changed\<close>.\<close>

definition service_item :: "bool \<Rightarrow> locals \<Rightarrow> string \<Rightarrow> rstate \<Rightarrow> rstate" where
  "service_item check_mode v item =
     on_both_planes check_mode (state v = Enabled) (truthy (runtime v)) (truthy (permanent v))
       (Some (timeout v)) False (EService item)"

text \<open>Lines 447 to 465.\<close>

definition port_item :: "bool \<Rightarrow> locals \<Rightarrow> port_proto \<Rightarrow> rstate \<Rightarrow> rstate" where
  "port_item check_mode v item =
     on_both_planes check_mode (state v = Enabled) (truthy (runtime v)) (truthy (permanent v))
       (Some (timeout v)) True (EPort (fst item) (snd item))"

text \<open>Lines 468 to 486.\<close>

definition source_port_item :: "bool \<Rightarrow> locals \<Rightarrow> port_proto \<Rightarrow> rstate \<Rightarrow> rstate" where
  "source_port_item check_mode v item =
     on_both_planes check_mode (state v = Enabled) (truthy (runtime v)) (truthy (permanent v))
       (Some (timeout v)) True (ESourcePort (fst item) (snd item))"

text \<open>Lines 489 to 520.\<close>

definition forward_port_item :: "bool \<Rightarrow> locals \<Rightarrow> forward \<Rightarrow> rstate \<Rightarrow> rstate" where
  "forward_port_item check_mode v item =
     (case item of (p, proto, to_port, to_addr) \<Rightarrow>
        on_both_planes check_mode (state v = Enabled) (truthy (runtime v))
          (truthy (permanent v)) (Some (timeout v)) True (EForwardPort p proto to_port to_addr))"

text \<open>Lines 523 to 541: decided by the value of \<^verbatim>\<open>masquerade\<close>, not by \<^verbatim>\<open>state\<close>.\<close>

definition masquerade_step :: "bool \<Rightarrow> locals \<Rightarrow> rstate \<Rightarrow> rstate" where
  "masquerade_step check_mode v s =
     (case masquerade v of
        None \<Rightarrow> s
      | Some m \<Rightarrow>
          on_both_planes check_mode m (truthy (runtime v)) (truthy (permanent v))
            (Some (timeout v)) True EMasquerade s)"

text \<open>Lines 544 to 562.\<close>

definition rich_rule_item :: "bool \<Rightarrow> locals \<Rightarrow> string \<Rightarrow> rstate \<Rightarrow> rstate" where
  "rich_rule_item check_mode v item =
     on_both_planes check_mode (state v = Enabled) (truthy (runtime v)) (truthy (permanent v))
       (Some (timeout v)) True (ERichRule item)"

text \<open>Lines 565 to 583: the runtime blocks have no gate, and the add takes no timeout.\<close>

definition source_item :: "bool \<Rightarrow> locals \<Rightarrow> string \<Rightarrow> rstate \<Rightarrow> rstate" where
  "source_item check_mode v item =
     on_both_planes check_mode (state v = Enabled) True (truthy (permanent v))
       None True (ESource item)"

text \<open>Lines 586 to 604.\<close>

definition interface_item :: "bool \<Rightarrow> locals \<Rightarrow> string \<Rightarrow> rstate \<Rightarrow> rstate" where
  "interface_item check_mode v item =
     on_both_planes check_mode (state v = Enabled) (truthy (runtime v)) (truthy (permanent v))
       None True (EInterface item)"

text \<open>Lines 607 to 625.\<close>

definition icmp_block_item :: "bool \<Rightarrow> locals \<Rightarrow> string \<Rightarrow> rstate \<Rightarrow> rstate" where
  "icmp_block_item check_mode v item =
     on_both_planes check_mode (state v = Enabled) (truthy (runtime v)) (truthy (permanent v))
       (Some (timeout v)) True (EIcmpBlock item)"

text \<open>Lines 628 to 646.\<close>

definition icmp_block_inversion_step :: "bool \<Rightarrow> locals \<Rightarrow> rstate \<Rightarrow> rstate" where
  "icmp_block_inversion_step check_mode v s =
     (case icmp_block_inversion v of
        None \<Rightarrow> s
      | Some i \<Rightarrow>
          on_both_planes check_mode i (truthy (runtime v)) (truthy (permanent v))
            None True EIcmpBlockInversion s)"

text \<open>Lines 649 to 659: the same statements under either \<^verbatim>\<open>state\<close>, permanent only.\<close>

definition target_step :: "bool \<Rightarrow> locals \<Rightarrow> rstate \<Rightarrow> rstate" where
  "target_step check_mode v s =
     (case target v of
        None \<Rightarrow> s
      | Some t \<Rightarrow>
          if \<not> truthy (permanent v) then s
          else if fw_target s = t then log_call (GetTarget (fw_target s)) s
          else if check_mode then (log_call (GetTarget (fw_target s)) s)\<lparr>changed := True\<rparr>
          else (set_target t (log_call (GetTarget (fw_target s)) s))\<lparr>changed := True\<rparr>)"

text \<open>Lines 661 to 666: the write-back of the settings object, whatever the mode.\<close>

definition apply_permanent :: "locals \<Rightarrow> rstate \<Rightarrow> rstate" where
  "apply_permanent v s = (if truthy (permanent v) then log_call Commit s else s)"

text \<open>The kinds in the order of the source, each a loop over its list or one step.\<close>

definition stages :: "bool \<Rightarrow> locals \<Rightarrow> (rstate \<Rightarrow> rstate) list" where
  "stages check_mode v =
     [fold (service_item check_mode v) (service v),
      fold (port_item check_mode v) (port v),
      fold (source_port_item check_mode v) (source_port v),
      fold (forward_port_item check_mode v) (forward_port v),
      masquerade_step check_mode v,
      fold (rich_rule_item check_mode v) (rich_rule v),
      fold (source_item check_mode v) (source v),
      fold (interface_item check_mode v) (interface v),
      fold (icmp_block_item check_mode v) (icmp_block v),
      icmp_block_inversion_step check_mode v,
      target_step check_mode v,
      apply_permanent v]"

definition reconcile :: "bool \<Rightarrow> locals \<Rightarrow> rstate \<Rightarrow> rstate" where
  "reconcile check_mode v s = fold (\<lambda>stage. stage) (stages check_mode v) s"

section \<open>The whole run\<close>

text \<open>
  What a run leaves: \<^verbatim>\<open>fail_json\<close> or \<^verbatim>\<open>exit_json(changed=...)\<close>, the calls it made, and
  the backend afterwards.  The stored settings change only by the write-back.  The
  settings object is read from the stored settings of the zone (lines 404 to 406, 419 to
  420); the calls recorded are the connection of line 348 and those of the modification
  part.  \<^verbatim>\<open>HAS_FIREWALLD\<close> is tested twice (lines 238 and 345); the second test cannot
  fail after the first.
\<close>

record run =
  result :: "error + bool"
  trace :: "call list"
  after :: backend

definition failed :: "error \<Rightarrow> call list \<Rightarrow> backend \<Rightarrow> run" where
  "failed e cs env = \<lparr>result = Inl e, trace = cs, after = env\<rparr>"

definition start_state :: "backend \<Rightarrow> string \<Rightarrow> rstate" where
  "start_state env z =
     \<lparr>changed = False, fw = runtime_plane env z, fw_settings = fst (permanent_plane env z),
      fw_target = snd (permanent_plane env z), calls = [Connect]\<rparr>"

definition finish :: "backend \<Rightarrow> locals \<Rightarrow> string \<Rightarrow> rstate \<Rightarrow> run" where
  "finish env v z s =
     \<lparr>result = Inr (changed s), trace = calls s,
      after = env\<lparr>runtime_plane := (runtime_plane env)(z := fw s),
                  permanent_plane :=
                    (if truthy (permanent v)
                     then (permanent_plane env)(z := (fw_settings s, fw_target s))
                     else permanent_plane env)\<rparr>\<rparr>"

text \<open>
  Everything before line 424: the locals and the zone the modification part works with,
  or the failure and the calls made before it.
\<close>

definition prepare :: "backend \<Rightarrow> params \<Rightarrow> error \<times> call list + locals \<times> string" where
  "prepare env p =
     (if \<not> has_firewalld env then Inl (NoBackendImported, [])
      else (case read_params env p of
              Inl e \<Rightarrow> Inl (e, [])
            | Inr v0 \<Rightarrow>
           (case validate v0 of
              Inl e \<Rightarrow> Inl (e, [])
            | Inr v1 \<Rightarrow>
           (case connect env v1 of
              Inl e \<Rightarrow> Inl (e, [Connect])
            | Inr (fw_offline, v) \<Rightarrow>
           (case choose_zone env fw_offline v of
              Inl e \<Rightarrow> Inl (e, [Connect])
            | Inr z \<Rightarrow> Inr (v, z))))))"

definition main :: "backend \<Rightarrow> bool \<Rightarrow> params \<Rightarrow> run" where
  "main env check_mode p =
     (case prepare env p of
        Inl (e, cs) \<Rightarrow> failed e cs env
      | Inr (v, z) \<Rightarrow> finish env v z (reconcile check_mode v (start_state env z)))"

section \<open>The modification part as one loop over entries\<close>

text \<open>
  Every kind runs the same two blocks, and what differs between the kinds is decided by
  the entry alone.  The four functions below read these differences off the source;
  \<open>entries\<close> lists what the loops visit, in their order.
\<close>

definition wanted :: "locals \<Rightarrow> entry \<Rightarrow> bool" where
  "wanted v e =
     (case e of
        EMasquerade \<Rightarrow> truthy (masquerade v)
      | EIcmpBlockInversion \<Rightarrow> truthy (icmp_block_inversion v)
      | _ \<Rightarrow> state v = Enabled)"

definition rt_gate :: "locals \<Rightarrow> entry \<Rightarrow> bool" where
  "rt_gate v e = (case e of ESource _ \<Rightarrow> True | _ \<Rightarrow> truthy (runtime v))"

definition rt_timeout :: "locals \<Rightarrow> entry \<Rightarrow> int option" where
  "rt_timeout v e =
     (case e of
        ESource _ \<Rightarrow> None
      | EInterface _ \<Rightarrow> None
      | EIcmpBlockInversion \<Rightarrow> None
      | _ \<Rightarrow> Some (timeout v))"

definition rt_rm_changed :: "entry \<Rightarrow> bool" where
  "rt_rm_changed e = (case e of EService _ \<Rightarrow> False | _ \<Rightarrow> True)"

definition entry_step :: "bool \<Rightarrow> locals \<Rightarrow> entry \<Rightarrow> rstate \<Rightarrow> rstate" where
  "entry_step check_mode v e =
     on_both_planes check_mode (wanted v e) (rt_gate v e) (truthy (permanent v))
       (rt_timeout v e) (rt_rm_changed e) e"

definition entries :: "locals \<Rightarrow> entry list" where
  "entries v =
     map EService (service v)
     @ map (\<lambda>i. EPort (fst i) (snd i)) (port v)
     @ map (\<lambda>i. ESourcePort (fst i) (snd i)) (source_port v)
     @ map (\<lambda>(p, proto, to_port, to_addr). EForwardPort p proto to_port to_addr) (forward_port v)
     @ (case masquerade v of None \<Rightarrow> [] | Some m \<Rightarrow> [EMasquerade])
     @ map ERichRule (rich_rule v)
     @ map ESource (source v)
     @ map EInterface (interface v)
     @ map EIcmpBlock (icmp_block v)
     @ (case icmp_block_inversion v of None \<Rightarrow> [] | Some i \<Rightarrow> [EIcmpBlockInversion])"

text \<open>The gate of a plane for an entry.\<close>

definition gate :: "locals \<Rightarrow> plane \<Rightarrow> entry \<Rightarrow> bool" where
  "gate v pl e = (case pl of Runtime \<Rightarrow> rt_gate v e | Permanent \<Rightarrow> truthy (permanent v))"

text \<open>
  The calls the modification part can make, given the mode and the locals: a query only
  through an open gate, an addition or removal only outside check mode, of an entry that
  is wanted or unwanted, and the target and the write-back only with \<^verbatim>\<open>permanent\<close>.
\<close>

fun possible_call :: "bool \<Rightarrow> locals \<Rightarrow> call \<Rightarrow> bool" where
  "possible_call check_mode v Connect = False"
| "possible_call check_mode v (Query pl e b) = gate v pl e"
| "possible_call check_mode v (Add pl e tmo) = (\<not> check_mode \<and> gate v pl e \<and> wanted v e)"
| "possible_call check_mode v (Remove pl e) = (\<not> check_mode \<and> gate v pl e \<and> \<not> wanted v e)"
| "possible_call check_mode v (GetTarget t) = truthy (permanent v)"
| "possible_call check_mode v (SetTarget t) = (\<not> check_mode \<and> truthy (permanent v))"
| "possible_call check_mode v Commit = False"

text \<open>A call that changes a plane.\<close>

fun mutating :: "call \<Rightarrow> bool" where
  "mutating (Add pl e tmo) = True"
| "mutating (Remove pl e) = True"
| "mutating (SetTarget t) = True"
| "mutating c = False"

text \<open>A call on the permanent plane: its queries, changes, target and write-back.\<close>

fun on_permanent :: "call \<Rightarrow> bool" where
  "on_permanent (Query pl e b) = (pl = Permanent)"
| "on_permanent (Add pl e tmo) = (pl = Permanent)"
| "on_permanent (Remove pl e) = (pl = Permanent)"
| "on_permanent (GetTarget t) = True"
| "on_permanent (SetTarget t) = True"
| "on_permanent Commit = True"
| "on_permanent Connect = False"

text \<open>A call on the runtime plane, and the entry a call is about.\<close>

fun on_runtime :: "call \<Rightarrow> bool" where
  "on_runtime (Query pl e b) = (pl = Runtime)"
| "on_runtime (Add pl e tmo) = (pl = Runtime)"
| "on_runtime (Remove pl e) = (pl = Runtime)"
| "on_runtime c = False"

fun entry_of :: "call \<Rightarrow> entry option" where
  "entry_of (Query pl e b) = Some e"
| "entry_of (Add pl e tmo) = Some e"
| "entry_of (Remove pl e) = Some e"
| "entry_of c = None"

text \<open>
  An entry on which a plane disagrees with the request, in a given state: absent though
  wanted, or present though unwanted, on a plane whose gate is open.
\<close>

definition disagrees :: "locals \<Rightarrow> rstate \<Rightarrow> entry \<Rightarrow> bool" where
  "disagrees v s e =
     ((rt_gate v e \<and> (e \<in> fw s) \<noteq> wanted v e)
      \<or> (truthy (permanent v) \<and> (e \<in> fw_settings s) \<noteq> wanted v e))"

text \<open>A disagreement whose block sets \<^verbatim>\<open>changed\<close>.\<close>

definition counted :: "locals \<Rightarrow> rstate \<Rightarrow> entry \<Rightarrow> bool" where
  "counted v s e =
     ((rt_gate v e \<and> (e \<in> fw s) \<noteq> wanted v e \<and> (wanted v e \<or> rt_rm_changed e))
      \<or> (truthy (permanent v) \<and> (e \<in> fw_settings s) \<noteq> wanted v e))"

definition target_disagrees :: "locals \<Rightarrow> rstate \<Rightarrow> bool" where
  "target_disagrees v s =
     (truthy (permanent v) \<and> (case target v of None \<Rightarrow> False | Some t \<Rightarrow> fw_target s \<noteq> t))"

definition any_disagreement :: "locals \<Rightarrow> rstate \<Rightarrow> bool" where
  "any_disagreement v s = (list_ex (disagrees v s) (entries v) \<or> target_disagrees v s)"

text \<open>The one removal whose block does not set \<^verbatim>\<open>changed\<close> (lines 438 to 440).\<close>

fun runtime_service_removal :: "call \<Rightarrow> bool" where
  "runtime_service_removal (Remove Runtime (EService i)) = True"
| "runtime_service_removal c = False"

text \<open>
  How the calls a piece of the modification part adds relate to \<^verbatim>\<open>changed\<close>:
  \<^verbatim>\<open>changed\<close> is never reset, it is set after any change of a plane other than the
  removal above, and outside check mode it is not set without a change of a plane.
\<close>

definition accounted :: "bool \<Rightarrow> rstate \<Rightarrow> rstate \<Rightarrow> bool" where
  "accounted check_mode s s' =
     (\<exists>cs. calls s' = calls s @ cs
         \<and> (changed s \<longrightarrow> changed s')
         \<and> ((\<exists>c\<in>set cs. mutating c \<and> \<not> runtime_service_removal c) \<longrightarrow> changed s')
         \<and> (\<not> check_mode \<and> changed s' \<longrightarrow> changed s \<or> (\<exists>c\<in>set cs. mutating c)))"

text \<open>The calls that read a plane, and the ones an entry gives rise to in a state.\<close>

fun is_query :: "call \<Rightarrow> bool" where
  "is_query (Query pl e b) = True"
| "is_query (GetTarget t) = True"
| "is_query c = False"

definition step_queries :: "locals \<Rightarrow> rstate \<Rightarrow> entry \<Rightarrow> call list" where
  "step_queries v s e =
     (if rt_gate v e then [Query Runtime e (e \<in> fw s)] else [])
     @ (if truthy (permanent v) then [Query Permanent e (e \<in> fw_settings s)] else [])"

section \<open>Example runs\<close>

definition env0 :: backend where
  "env0 =
     \<lparr>has_firewalld = True, fw_version = [0, 9, 3], connected = True,
      default_zone = ''public'', runtime_zones = [''public''],
      permanent_zones = [''public''], rich_rule_str = Some,
      runtime_plane = (\<lambda>z. {}), permanent_plane = (\<lambda>z. ({}, ''default''))\<rparr>"

definition req0 :: params where
  "req0 =
     \<lparr>service = [], port = [], source_port = [], forward_port = [], masquerade = None,
      rich_rule = [], source = [], interface = [], icmp_block = [],
      icmp_block_inversion = None, timeout = 0, target = None, zone = None,
      permanent = None, runtime = None, offline = None, state = Enabled\<rparr>"

text \<open>A backend whose runtime plane has the service http and the port 80/tcp.\<close>

definition env_http :: backend where
  "env_http = env0\<lparr>runtime_plane := (\<lambda>z. {EService ''http'', EPort ''80'' ''tcp''})\<rparr>"

text \<open>Locals with nothing set.\<close>

definition loc0 :: locals where
  "loc0 =
     \<lparr>service = [], port = [], source_port = [], forward_port = [], masquerade = None,
      rich_rule = [], source = [], interface = [], icmp_block = [],
      icmp_block_inversion = None, timeout = 0, target = None, zone = None,
      permanent = None, runtime = None, offline = None, state = Enabled\<rparr>"

text \<open>A request that touches three kinds on the permanent plane, and its locals.\<close>

definition req_three :: params where
  "req_three =
     req0\<lparr>service := [''http''], port := [''80/tcp''], rich_rule := [''rule family=ipv4 accept''],
          permanent := Some True\<rparr>"

definition loc_three :: locals where
  "loc_three =
     loc0\<lparr>service := [''http''], port := [(''80'', ''tcp'')],
          rich_rule := [''rule family=ipv4 accept''], permanent := Some True\<rparr>"

text \<open>A backend whose daemon is not running.\<close>

definition env_down :: backend where
  "env_down = env0\<lparr>connected := False\<rparr>"

text \<open>A request for a service and a source, permanent and not runtime, and its locals.\<close>

definition req_source :: params where
  "req_source =
     req0\<lparr>service := [''http''], source := [''10.0.0.1''], permanent := Some True,
          runtime := Some False\<rparr>"

definition loc_source :: locals where
  "loc_source =
     loc0\<lparr>service := [''http''], source := [''10.0.0.1''], permanent := Some True,
          runtime := Some False\<rparr>"

section \<open>Facts about the blocks and the loop\<close>

lemma log_call_simps [simp]:
  "changed (log_call c s) = changed s"
  "fw (log_call c s) = fw s"
  "fw_settings (log_call c s) = fw_settings s"
  "fw_target (log_call c s) = fw_target s"
  "calls (log_call c s) = calls s @ [c]"
  by (simp_all add: log_call_def)

lemma add_entry_simps [simp]:
  "changed (add_entry pl e t s) = changed s"
  "fw (add_entry pl e t s) = (if pl = Runtime then insert e (fw s) else fw s)"
  "fw_settings (add_entry pl e t s) = (if pl = Permanent then insert e (fw_settings s) else fw_settings s)"
  "fw_target (add_entry pl e t s) = fw_target s"
  "calls (add_entry pl e t s) = calls s @ [Add pl e t]"
  by (cases pl; simp add: add_entry_def)+

lemma remove_entry_simps [simp]:
  "changed (remove_entry pl e s) = changed s"
  "fw (remove_entry pl e s) = (if pl = Runtime then fw s - {e} else fw s)"
  "fw_settings (remove_entry pl e s) = (if pl = Permanent then fw_settings s - {e} else fw_settings s)"
  "fw_target (remove_entry pl e s) = fw_target s"
  "calls (remove_entry pl e s) = calls s @ [Remove pl e]"
  by (cases pl; simp add: remove_entry_def)+

lemma query_simps [simp]:
  "query Runtime e s = (e \<in> fw s)"
  "query Permanent e s = (e \<in> fw_settings s)"
  by (simp_all add: query_def)

lemmas step_defs = entry_step_def on_both_planes_def add_if_absent_def remove_if_present_def

lemma entry_step_changed: "changed (entry_step cm v e s) = (changed s \<or> counted v s e)"
  by (auto simp: step_defs counted_def)

lemma entry_step_target [simp]: "fw_target (entry_step cm v e s) = fw_target s"
  by (auto simp: step_defs)

lemma entry_step_dry [simp]:
  "fw (entry_step True v e s) = fw s"
  "fw_settings (entry_step True v e s) = fw_settings s"
  by (auto simp: step_defs)

lemma entry_step_fw:
  "fw (entry_step False v e s) =
     (if rt_gate v e then (if wanted v e then insert e (fw s) else fw s - {e}) else fw s)"
  by (auto simp: step_defs)

lemma entry_step_fw_settings:
  "fw_settings (entry_step False v e s) =
     (if truthy (permanent v) then (if wanted v e then insert e (fw_settings s) else fw_settings s - {e})
      else fw_settings s)"
  by (auto simp: step_defs)

lemma counted_after_step:
  "\<not> counted v s x \<Longrightarrow> counted v (entry_step cm v x s) e = counted v s e"
  by (cases cm) (auto simp: counted_def entry_step_fw entry_step_fw_settings)

lemma fold_changed:
  "changed (fold (entry_step cm v) es s) = (changed s \<or> list_ex (counted v s) es)"
proof (induction es arbitrary: s)
  case Nil
  show ?case by simp
next
  case (Cons x xs)
  show ?case
  proof (cases "counted v s x")
    case True
    then show ?thesis by (simp add: Cons.IH entry_step_changed)
  next
    case False
    then show ?thesis by (simp add: Cons.IH entry_step_changed counted_after_step)
  qed
qed

lemma fold_target [simp]: "fw_target (fold (entry_step cm v) es s) = fw_target s"
  by (induction es arbitrary: s) simp_all

lemma fold_dry [simp]:
  "fw (fold (entry_step True v) es s) = fw s"
  "fw_settings (fold (entry_step True v) es s) = fw_settings s"
  by (induction es arbitrary: s) simp_all

lemma fold_fw:
  "(e \<in> fw (fold (entry_step False v) es s)) =
     (if e \<in> set es \<and> rt_gate v e then wanted v e else e \<in> fw s)"
  by (induction es arbitrary: s) (auto simp: entry_step_fw)

lemma fold_fw_settings:
  "(e \<in> fw_settings (fold (entry_step False v) es s)) =
     (if e \<in> set es \<and> truthy (permanent v) then wanted v e else e \<in> fw_settings s)"
  by (induction es arbitrary: s) (auto simp: entry_step_fw_settings)

lemma entry_step_calls:
  "\<exists>cs. calls (entry_step cm v e s) = calls s @ cs
        \<and> (\<forall>c\<in>set cs. possible_call cm v c \<and> entry_of c = Some e)"
  by (auto simp: step_defs gate_def)

lemma fold_calls:
  "\<exists>cs. calls (fold (entry_step cm v) es s) = calls s @ cs
        \<and> (\<forall>c\<in>set cs. possible_call cm v c \<and> (\<exists>e\<in>set es. entry_of c = Some e))"
proof (induction es arbitrary: s)
  case Nil
  show ?case by simp
next
  case (Cons x xs)
  obtain cs1 where 1: "calls (entry_step cm v x s) = calls s @ cs1"
    and 2: "\<forall>c\<in>set cs1. possible_call cm v c \<and> entry_of c = Some x"
    using entry_step_calls by blast
  obtain cs2 where 3: "calls (fold (entry_step cm v) xs (entry_step cm v x s)) = calls (entry_step cm v x s) @ cs2"
    and 4: "\<forall>c\<in>set cs2. possible_call cm v c \<and> (\<exists>e\<in>set xs. entry_of c = Some e)"
    using Cons.IH by blast
  have "calls (fold (entry_step cm v) (x # xs) s) = calls s @ (cs1 @ cs2)"
    using 1 3 by simp
  moreover have "\<forall>c\<in>set (cs1 @ cs2). possible_call cm v c \<and> (\<exists>e\<in>set (x # xs). entry_of c = Some e)"
    using 2 4 by auto
  ultimately show ?case by blast
qed

lemma entry_step_queries:
  "gate v pl e \<Longrightarrow> \<exists>b. Query pl e b \<in> set (calls (entry_step cm v e s))"
  by (cases pl) (auto simp: step_defs gate_def)

lemma entry_step_keeps_calls: "set (calls s) \<subseteq> set (calls (entry_step cm v e s))"
  using entry_step_calls [of cm v e s] by auto

lemma fold_keeps_calls: "set (calls s) \<subseteq> set (calls (fold (entry_step cm v) es s))"
  using fold_calls [of cm v es s] by auto

lemma fold_queries:
  "e \<in> set es \<Longrightarrow> gate v pl e \<Longrightarrow> \<exists>b. Query pl e b \<in> set (calls (fold (entry_step cm v) es s))"
proof (induction es arbitrary: s)
  case Nil
  then show ?case by simp
next
  case (Cons x xs)
  show ?case
  proof (cases "e = x")
    case True
    then obtain b where "Query pl e b \<in> set (calls (entry_step cm v x s))"
      using entry_step_queries [OF Cons.prems(2)] by blast
    then show ?thesis using fold_keeps_calls [of "entry_step cm v x s" cm v xs] by auto
  next
    case False
    then show ?thesis using Cons by auto
  qed
qed

lemma reconcile_eq:
  "reconcile cm v s = apply_permanent v (target_step cm v (fold (entry_step cm v) (entries v) s))"
proof -
  have [simp]: "service_item cm v = (\<lambda>i. entry_step cm v (EService i))"
    "port_item cm v = (\<lambda>i. entry_step cm v (EPort (fst i) (snd i)))"
    "source_port_item cm v = (\<lambda>i. entry_step cm v (ESourcePort (fst i) (snd i)))"
    "forward_port_item cm v = (\<lambda>(p, proto, to_port, to_addr). entry_step cm v (EForwardPort p proto to_port to_addr))"
    "rich_rule_item cm v = (\<lambda>i. entry_step cm v (ERichRule i))"
    "source_item cm v = (\<lambda>i. entry_step cm v (ESource i))"
    "interface_item cm v = (\<lambda>i. entry_step cm v (EInterface i))"
    "icmp_block_item cm v = (\<lambda>i. entry_step cm v (EIcmpBlock i))"
    by (auto simp: fun_eq_iff service_item_def port_item_def source_port_item_def forward_port_item_def
          rich_rule_item_def source_item_def interface_item_def icmp_block_item_def
          entry_step_def wanted_def rt_gate_def rt_timeout_def rt_rm_changed_def)
  have m: "masquerade_step cm v = fold (entry_step cm v) (case masquerade v of None \<Rightarrow> [] | Some m \<Rightarrow> [EMasquerade])"
    by (auto simp: fun_eq_iff masquerade_step_def entry_step_def wanted_def rt_gate_def rt_timeout_def
          rt_rm_changed_def truthy_def split: option.splits)
  have i: "icmp_block_inversion_step cm v = fold (entry_step cm v) (case icmp_block_inversion v of None \<Rightarrow> [] | Some m \<Rightarrow> [EIcmpBlockInversion])"
    by (auto simp: fun_eq_iff icmp_block_inversion_step_def entry_step_def wanted_def rt_gate_def rt_timeout_def
          rt_rm_changed_def truthy_def split: option.splits)
  show ?thesis
    unfolding reconcile_def stages_def entries_def m i
    by (simp add: fold_map comp_def case_prod_unfold)
qed

lemmas run_defs = main_def prepare_def read_params_def validate_def select_planes_def
  nothing_set_def check_disabled_def check_timeout_def timeout_ok_def connect_def
  choose_zone_def finish_def failed_def start_state_def truthy_def parse_rich_rule_def
  locals_of_def
  parse_port_def parse_forward_port_def is_None_def empty_to_None_def reconcile_def
  stages_def service_item_def port_item_def source_port_item_def forward_port_item_def
  masquerade_step_def rich_rule_item_def source_item_def interface_item_def
  icmp_block_item_def icmp_block_inversion_step_def target_step_def apply_permanent_def
  on_both_planes_def add_if_absent_def remove_if_present_def set_target_def env0_def req0_def

section \<open>Parsing a port\<close>

lemma split_on_absent: "c \<notin> set xs \<Longrightarrow> split_on c xs = [xs]"
  by (induction xs) auto

lemma parse_port_no_slash: "CHR ''/'' \<notin> set item \<Longrightarrow> parse_port item = Inl ValueError"
  by (simp add: parse_port_def split_on_absent)

lemma parse_port_two_slashes: "parse_port ''1/2/tcp'' = Inl ValueError"
  by (simp add: parse_port_def)

lemma parse_port_never_format_error: "parse_port item \<notin> Inl ` FormatError"
  by (auto simp: parse_port_def is_None_def FormatError_def split: list.splits)

text \<open>
  C3.  \<^verbatim>\<open>parse_port("80-82/tcp")\<close> is the pair of port range and protocol.  For
  \<^verbatim>\<open>"80"\<close>, which has no protocol, the tuple assignment of line 181 raises
  \<^verbatim>\<open>ValueError\<close> before the format check of line 182 is reached: the run ends with an
  uncaught exception, which is not the module's port-format failure.
\<close>

theorem parse_port_without_protocol:
  "parse_port ''80'' = Inl ValueError \<and> ValueError \<notin> FormatError
   \<and> parse_port ''80-82/tcp'' = Inr (''80-82'', ''tcp'')"
  by (auto simp: parse_port_def is_None_def FormatError_def)

section \<open>The changed flag\<close>

text \<open>
  C1.  With \<^verbatim>\<open>state: disabled\<close>, the service http present on the runtime plane and
  check mode off, the run removes the service and still reports \<^verbatim>\<open>changed=False\<close>;
  the same run for the port 80/tcp reports \<^verbatim>\<open>changed=True\<close>.
\<close>

theorem runtime_service_removal_not_reported:
  "result (main env_http False (req0\<lparr>service := [''http''], state := Disabled\<rparr>)) = Inr False
   \<and> trace (main env_http False (req0\<lparr>service := [''http''], state := Disabled\<rparr>))
       = [Connect, Query Runtime (EService ''http'') True, Remove Runtime (EService ''http'')]
   \<and> result (main env_http False (req0\<lparr>port := [''80/tcp''], state := Disabled\<rparr>)) = Inr True
   \<and> trace (main env_http False (req0\<lparr>port := [''80/tcp''], state := Disabled\<rparr>))
       = [Connect, Query Runtime (EPort ''80'' ''tcp'') True, Remove Runtime (EPort ''80'' ''tcp'')]"
  by (simp add: run_defs env_http_def)

section \<open>Check mode\<close>

text \<open>
  C2.  In check mode with \<^verbatim>\<open>permanent: true\<close> the run makes no addition, and still
  writes the zone settings back (lines 661 to 666 do not test \<^verbatim>\<open>module.check_mode\<close>).
\<close>

theorem check_mode_writes_back:
  "trace (main env0 True (req0\<lparr>service := [''http''], permanent := Some True\<rparr>))
     = [Connect, Query Permanent (EService ''http'') False, Commit]
   \<and> result (main env0 True (req0\<lparr>service := [''http''], permanent := Some True\<rparr>)) = Inr True"
  by (simp add: run_defs)

section \<open>Validation\<close>

lemma locals_of_fields [simp]:
  "service (locals_of p a b c d) = service p"
  "port (locals_of p a b c d) = a"
  "source_port (locals_of p a b c d) = b"
  "forward_port (locals_of p a b c d) = c"
  "masquerade (locals_of p a b c d) = masquerade p"
  "rich_rule (locals_of p a b c d) = d"
  "source (locals_of p a b c d) = source p"
  "interface (locals_of p a b c d) = interface p"
  "icmp_block (locals_of p a b c d) = icmp_block p"
  "icmp_block_inversion (locals_of p a b c d) = icmp_block_inversion p"
  "timeout (locals_of p a b c d) = timeout p"
  "target (locals_of p a b c d) = target p"
  "zone (locals_of p a b c d) = zone p"
  "permanent (locals_of p a b c d) = permanent p"
  "runtime (locals_of p a b c d) = runtime p"
  "offline (locals_of p a b c d) = offline p"
  "state (locals_of p a b c d) = state p"
  by (simp_all add: locals_of_def)

lemma read_params_Inr:
  assumes "read_params env p = Inr v"
  shows "\<exists>a b c d. v = locals_of p a b c d"
  using assms unfolding read_params_def by (auto split: sum.splits)

lemma read_params_fields:
  assumes "read_params env p = Inr v"
  shows "service v = service p" "masquerade v = masquerade p" "source v = source p"
    "interface v = interface p" "icmp_block v = icmp_block p"
    "icmp_block_inversion v = icmp_block_inversion p" "timeout v = timeout p"
    "target v = target p" "zone v = zone p" "permanent v = permanent p"
    "runtime v = runtime p" "offline v = offline p" "state v = state p"
  using read_params_Inr [OF assms] by auto

lemma timeout_ok_ignores_runtime [simp]: "timeout_ok (v\<lparr>runtime := r\<rparr>) = timeout_ok v"
  by (simp add: timeout_ok_def)

lemma checks_ignore_runtime [simp]:
  "nothing_set (v\<lparr>runtime := r\<rparr>) = nothing_set v"
  "check_disabled (v\<lparr>runtime := r\<rparr>) = check_disabled v"
  "check_timeout (v\<lparr>runtime := r\<rparr>) = check_timeout v"
  by (simp_all add: nothing_set_def check_disabled_def check_timeout_def)

lemma select_planes_eq:
  "select_planes v =
     (if no_plane v then Inl NoPlaneEnabled
      else Inr (if permanent v = None then v\<lparr>runtime := Some True\<rparr> else v))"
proof (cases "permanent v")
  case None
  then show ?thesis by (simp add: select_planes_def no_plane_def)
next
  case (Some b)
  then show ?thesis by (cases b) (simp_all add: select_planes_def no_plane_def truthy_def)
qed
lemma validate_eq:
  "validate v =
     (if no_plane v then Inl NoPlaneEnabled
      else if nothing_set v then Inl NothingSet
      else (case check_disabled v of
              Some e \<Rightarrow> Inl e
            | None \<Rightarrow>
                (case check_timeout v of
                   Some e \<Rightarrow> Inl e
                 | None \<Rightarrow> Inr (if permanent v = None then v\<lparr>runtime := Some True\<rparr> else v))))"
  by (simp add: validate_def select_planes_eq split: option.splits)

lemma check_disabled_range: "check_disabled v = Some e \<Longrightarrow> e \<in> IncompatibleWithDisabled"
  by (auto simp: check_disabled_def IncompatibleWithDisabled_def split: if_splits)

lemma check_timeout_range: "check_timeout v = Some e \<Longrightarrow> e \<in> TimeoutNotApplicable"
  by (auto simp: check_timeout_def TimeoutNotApplicable_def split: if_splits)

lemma check_disabled_None:
  "(check_disabled v = None) =
     (state v = Disabled \<longrightarrow>
        \<not> timeout v > 0 \<and> \<not> truthy (masquerade v) \<and> \<not> truthy (icmp_block_inversion v))"
  by (simp add: check_disabled_def)

lemma check_timeout_None:
  "(check_timeout v = None) =
     (timeout v > 0 \<and> \<not> timeout_ok v \<longrightarrow>
        icmp_block_inversion v = None \<and> source v = [] \<and> interface v = [] \<and> target v = None)"
  by (auto simp: check_timeout_def)



lemma kinds_disjoint:
  "NoPlaneEnabled \<notin> IncompatibleWithDisabled" "NoPlaneEnabled \<notin> TimeoutNotApplicable"
  "NothingSet \<notin> IncompatibleWithDisabled" "NothingSet \<notin> TimeoutNotApplicable"
  "NothingSet \<notin> NoPlaneSelected"
  "e \<in> IncompatibleWithDisabled \<Longrightarrow> e \<notin> TimeoutNotApplicable \<and> e \<notin> NoPlaneSelected"
  "e \<in> TimeoutNotApplicable \<Longrightarrow> e \<notin> NoPlaneSelected"
  by (auto simp: IncompatibleWithDisabled_def TimeoutNotApplicable_def NoPlaneSelected_def)

lemma validate_NoPlaneSelected: "(\<exists>e\<in>NoPlaneSelected. validate v = Inl e) = no_plane v"
proof (cases "check_disabled v")
  case None
  show ?thesis
  proof (cases "check_timeout v")
    case None
    with \<open>check_disabled v = None\<close> show ?thesis
      by (simp add: validate_eq NoPlaneSelected_def)
  next
    case (Some e)
    with \<open>check_disabled v = None\<close> check_timeout_range [OF Some] kinds_disjoint(7) [of e]
    show ?thesis by (auto simp: validate_eq NoPlaneSelected_def)
  qed
next
  case (Some e)
  with check_disabled_range [OF Some] kinds_disjoint(6) [of e]
  show ?thesis by (auto simp: validate_eq NoPlaneSelected_def)
qed

lemma validate_unset_permanent:
  "permanent v = None \<Longrightarrow> validate v = Inr v' \<Longrightarrow> v' = v\<lparr>runtime := Some True\<rparr>"
  by (simp add: validate_eq split: if_splits option.splits)

text \<open>
  C4, as the claim states it, fails: with \<^verbatim>\<open>permanent: false\<close> and \<^verbatim>\<open>runtime\<close> and
  \<^verbatim>\<open>offline\<close> left unset, the run is not refused; it connects and ends with
  \<^verbatim>\<open>changed=False\<close>.
\<close>

theorem plane_selection_unset_flags_pass:
  "permanent (req0\<lparr>service := [''http''], permanent := Some False\<rparr>) = Some False
   \<and> runtime (req0\<lparr>service := [''http''], permanent := Some False\<rparr>) = None
   \<and> offline (req0\<lparr>service := [''http''], permanent := Some False\<rparr>) = None
   \<and> result (main env0 False (req0\<lparr>service := [''http''], permanent := Some False\<rparr>)) = Inr False
   \<and> trace (main env0 False (req0\<lparr>service := [''http''], permanent := Some False\<rparr>)) = [Connect]"
  by (simp add: run_defs)


text \<open>
  C4, amended.  Validation fails with NoPlaneSelected exactly when \<^verbatim>\<open>permanent\<close>,
  \<^verbatim>\<open>runtime\<close> and \<^verbatim>\<open>offline\<close> are all three explicitly false.  When \<^verbatim>\<open>permanent\<close> is
  unset, a request that passes validation leaves it with \<^verbatim>\<open>runtime\<close> set to true and
  nothing else changed.
\<close>

theorem plane_selection:
  "((\<exists>e\<in>NoPlaneSelected. validate v = Inl e)
      \<longleftrightarrow> permanent v = Some False \<and> runtime v = Some False \<and> offline v = Some False)
   \<and> (permanent v = None \<longrightarrow>
        (\<forall>v'. validate v = Inr v' \<longrightarrow> v' = v\<lparr>runtime := Some True\<rparr> \<and> truthy (runtime v')))"
proof -
  have "permanent v = None \<longrightarrow>
        (\<forall>v'. validate v = Inr v' \<longrightarrow> v' = v\<lparr>runtime := Some True\<rparr> \<and> truthy (runtime v'))"
  proof (intro impI allI)
    fix v' assume "permanent v = None" "validate v = Inr v'"
    then have "v' = v\<lparr>runtime := Some True\<rparr>" by (rule validate_unset_permanent)
    then show "v' = v\<lparr>runtime := Some True\<rparr> \<and> truthy (runtime v')" by (simp add: truthy_def)
  qed
  then show ?thesis using validate_NoPlaneSelected [of v] by (simp add: no_plane_def)
qed

theorem plane_selection_witness:
  "validate (loc0\<lparr>service := [''http''], permanent := Some False, runtime := Some False,
       offline := Some False\<rparr>) = Inl NoPlaneEnabled
   \<and> validate (loc0\<lparr>service := [''http''], runtime := Some False\<rparr>)
       = Inr (loc0\<lparr>service := [''http''], runtime := Some True\<rparr>)"
  using plane_selection [of "loc0\<lparr>service := [''http''], permanent := Some False, runtime := Some False,
       offline := Some False\<rparr>"]
    plane_selection [of "loc0\<lparr>service := [''http''], runtime := Some False\<rparr>"]
  by (simp add: NoPlaneSelected_def loc0_def validate_def select_planes_def nothing_set_def
        check_disabled_def check_timeout_def timeout_ok_def truthy_def)

lemma validate_TimeoutNotApplicable:
  "(\<exists>e\<in>TimeoutNotApplicable. validate v = Inl e)
     = (\<not> no_plane v \<and> \<not> nothing_set v \<and> check_disabled v = None \<and> check_timeout v \<noteq> None)"
proof (cases "check_disabled v")
  case None
  show ?thesis
  proof (cases "check_timeout v")
    case None
    with \<open>check_disabled v = None\<close> show ?thesis
      by (auto simp: validate_eq TimeoutNotApplicable_def)
  next
    case (Some e)
    with \<open>check_disabled v = None\<close> check_timeout_range [OF Some] kinds_disjoint(2,4)
    show ?thesis by (auto simp: validate_eq)
  qed
next
  case (Some e)
  with check_disabled_range [OF Some] kinds_disjoint(2,4) kinds_disjoint(6) [of e]
  show ?thesis by (auto simp: validate_eq)
qed

lemma timeout_ok_eq:
  "timeout_ok v =
     (truthy (masquerade v) \<or> service v \<noteq> [] \<or> port v \<noteq> [] \<or> source_port v \<noteq> []
      \<or> forward_port v \<noteq> [] \<or> rich_rule v \<noteq> [] \<or> icmp_block v \<noteq> [])"
  by (auto simp: timeout_ok_def)

lemma nothing_set_eq:
  "nothing_set v =
     (masquerade v = None \<and> icmp_block_inversion v = None \<and> target v = None \<and> zone v = None
      \<and> service v = [] \<and> port v = [] \<and> source_port v = [] \<and> forward_port v = []
      \<and> rich_rule v = [] \<and> source v = [] \<and> interface v = [] \<and> icmp_block v = [])"
  by (auto simp: nothing_set_def)

text \<open>
  C5, as the claim states it, fails: with a positive timeout, \<^verbatim>\<open>state: disabled\<close> and
  only \<^verbatim>\<open>source\<close> set, validation fails at line 305, before the timeout checks of
  lines 319 to 343, with a failure that is not TimeoutNotApplicable.
\<close>

theorem timeout_scoping_after_disabled_check:
  "timeout (req0\<lparr>source := [''10.0.0.1''], timeout := 5, state := Disabled\<rparr>) > 0
   \<and> result (main env0 False (req0\<lparr>source := [''10.0.0.1''], timeout := 5, state := Disabled\<rparr>))
     = Inl TimeoutWithDisabled
   \<and> TimeoutWithDisabled \<notin> TimeoutNotApplicable"
  by (simp add: run_defs TimeoutNotApplicable_def)


text \<open>
  C5, amended.  For a request with a positive timeout and \<^verbatim>\<open>state: enabled\<close> that passes
  the plane selection, validation fails with TimeoutNotApplicable exactly when none of
  service, port, source_port, forward_port, rich_rule, icmp_block is non-empty,
  masquerade is not true, and one of icmp_block_inversion, source, interface, target is
  set.  With one of the former, validation passes.
\<close>

theorem timeout_scoping:
  "timeout v > 0 \<Longrightarrow> state v = Enabled \<Longrightarrow>
   \<not> (permanent v = Some False \<and> runtime v = Some False \<and> offline v = Some False) \<Longrightarrow>
   ((\<exists>e\<in>TimeoutNotApplicable. validate v = Inl e)
      \<longleftrightarrow> \<not> (truthy (masquerade v) \<or> service v \<noteq> [] \<or> port v \<noteq> [] \<or> source_port v \<noteq> []
              \<or> forward_port v \<noteq> [] \<or> rich_rule v \<noteq> [] \<or> icmp_block v \<noteq> [])
          \<and> (icmp_block_inversion v \<noteq> None \<or> source v \<noteq> [] \<or> interface v \<noteq> []
              \<or> target v \<noteq> None))
   \<and> (truthy (masquerade v) \<or> service v \<noteq> [] \<or> port v \<noteq> [] \<or> source_port v \<noteq> []
        \<or> forward_port v \<noteq> [] \<or> rich_rule v \<noteq> [] \<or> icmp_block v \<noteq> []
      \<longrightarrow> (\<exists>v'. validate v = Inr v'))"
proof -
  assume t: "timeout v > 0" and st: "state v = Enabled"
    and pl: "\<not> (permanent v = Some False \<and> runtime v = Some False \<and> offline v = Some False)"
  have np: "\<not> no_plane v" using pl by (simp add: no_plane_def)
  have cd: "check_disabled v = None" using st by (simp add: check_disabled_def)
  have ct: "(check_timeout v \<noteq> None)
      = (\<not> timeout_ok v \<and> (icmp_block_inversion v \<noteq> None \<or> source v \<noteq> [] \<or> interface v \<noteq> []
              \<or> target v \<noteq> None))"
    using t by (auto simp: check_timeout_None)
  have 1: "(\<exists>e\<in>TimeoutNotApplicable. validate v = Inl e)
      \<longleftrightarrow> \<not> timeout_ok v \<and> (icmp_block_inversion v \<noteq> None \<or> source v \<noteq> [] \<or> interface v \<noteq> []
              \<or> target v \<noteq> None)"
    unfolding validate_TimeoutNotApplicable using np cd ct by (auto simp: nothing_set_eq)
  have 2: "timeout_ok v \<longrightarrow> (\<exists>v'. validate v = Inr v')"
  proof
    assume ok: "timeout_ok v"
    then have "check_timeout v = None" by (simp add: check_timeout_None)
    moreover have "\<not> nothing_set v" using ok by (auto simp: timeout_ok_eq nothing_set_eq truthy_def)
    ultimately show "\<exists>v'. validate v = Inr v'" using np cd by (simp add: validate_eq)
  qed
  show ?thesis using 1 2 unfolding timeout_ok_eq by blast
qed

theorem timeout_scoping_witness:
  "validate (loc0\<lparr>source := [''10.0.0.1''], timeout := 5\<rparr>) = Inl TimeoutSourceOnly
   \<and> validate (loc0\<lparr>service := [''http''], source := [''10.0.0.1''], timeout := 5\<rparr>)
       = Inr (loc0\<lparr>service := [''http''], source := [''10.0.0.1''], timeout := 5,
               runtime := Some True\<rparr>)"
  using timeout_scoping [of "loc0\<lparr>source := [''10.0.0.1''], timeout := 5\<rparr>"]
    timeout_scoping [of "loc0\<lparr>service := [''http''], source := [''10.0.0.1''], timeout := 5\<rparr>"]
  by (simp add: loc0_def validate_def select_planes_def nothing_set_def
        check_disabled_def check_timeout_def timeout_ok_def truthy_def)

section \<open>The run as a whole\<close>

lemma target_step_fields [simp]:
  "fw (target_step cm v s) = fw s"
  "fw_settings (target_step cm v s) = fw_settings s"
  by (auto simp: target_step_def set_target_def split: option.splits)

lemma target_step_changed:
  "changed (target_step cm v s) = (changed s \<or> target_disagrees v s)"
  by (auto simp: target_step_def set_target_def target_disagrees_def split: option.splits)

lemma target_step_target:
  "fw_target (target_step cm v s) =
     (if cm \<or> \<not> truthy (permanent v) then fw_target s
      else (case target v of None \<Rightarrow> fw_target s | Some t \<Rightarrow> t))"
  by (auto simp: target_step_def set_target_def split: option.splits)

lemma target_step_calls:
  "\<exists>cs. calls (target_step cm v s) = calls s @ cs
        \<and> (\<forall>c\<in>set cs. possible_call cm v c \<and> entry_of c = None)"
  by (auto simp: target_step_def set_target_def split: option.splits)

lemma apply_permanent_fields [simp]:
  "changed (apply_permanent v s) = changed s"
  "fw (apply_permanent v s) = fw s"
  "fw_settings (apply_permanent v s) = fw_settings s"
  "fw_target (apply_permanent v s) = fw_target s"
  "calls (apply_permanent v s) = calls s @ (if truthy (permanent v) then [Commit] else [])"
  by (simp_all add: apply_permanent_def)

lemma target_disagrees_fold [simp]:
  "target_disagrees v (fold (entry_step cm v) es s) = target_disagrees v s"
  by (simp add: target_disagrees_def split: option.splits)

lemma reconcile_changed:
  "changed (reconcile cm v s)
     = (changed s \<or> list_ex (counted v s) (entries v) \<or> target_disagrees v s)"
  by (simp add: reconcile_eq target_step_changed fold_changed)

lemma reconcile_fw:
  "(e \<in> fw (reconcile False v s)) =
     (if e \<in> set (entries v) \<and> rt_gate v e then wanted v e else e \<in> fw s)"
  by (simp add: reconcile_eq fold_fw)

lemma reconcile_fw_settings:
  "(e \<in> fw_settings (reconcile False v s)) =
     (if e \<in> set (entries v) \<and> truthy (permanent v) then wanted v e else e \<in> fw_settings s)"
  by (simp add: reconcile_eq fold_fw_settings)

lemma reconcile_target:
  "fw_target (reconcile cm v s) =
     (if cm \<or> \<not> truthy (permanent v) then fw_target s
      else (case target v of None \<Rightarrow> fw_target s | Some t \<Rightarrow> t))"
  by (simp add: reconcile_eq target_step_target split: option.splits)

lemma reconcile_dry [simp]:
  "fw (reconcile True v s) = fw s"
  "fw_settings (reconcile True v s) = fw_settings s"
  by (simp_all add: reconcile_eq)

text \<open>The calls of the modification part: possible calls, then the write-back.\<close>

lemma reconcile_calls:
  "\<exists>cs. calls (reconcile cm v s)
          = calls s @ cs @ (if truthy (permanent v) then [Commit] else [])
        \<and> (\<forall>c\<in>set cs. possible_call cm v c)"
proof -
  obtain cs1 where 1: "calls (fold (entry_step cm v) (entries v) s) = calls s @ cs1"
    and 2: "\<forall>c\<in>set cs1. possible_call cm v c \<and> (\<exists>e\<in>set (entries v). entry_of c = Some e)"
    using fold_calls by blast
  obtain cs2 where 3: "calls (target_step cm v (fold (entry_step cm v) (entries v) s))
        = calls (fold (entry_step cm v) (entries v) s) @ cs2"
    and 4: "\<forall>c\<in>set cs2. possible_call cm v c \<and> entry_of c = None"
    using target_step_calls by blast
  have "calls (reconcile cm v s)
          = calls s @ (cs1 @ cs2) @ (if truthy (permanent v) then [Commit] else [])"
    using 1 3 by (simp add: reconcile_eq)
  moreover have "\<forall>c\<in>set (cs1 @ cs2). possible_call cm v c" using 2 4 by auto
  ultimately show ?thesis by blast
qed

lemma reconcile_queries:
  assumes "e \<in> set (entries v)" "gate v pl e"
  shows "\<exists>b. Query pl e b \<in> set (calls (reconcile cm v s))"
proof -
  obtain b where b: "Query pl e b \<in> set (calls (fold (entry_step cm v) (entries v) s))"
    using fold_queries [OF assms] by blast
  obtain cs2 where "calls (target_step cm v (fold (entry_step cm v) (entries v) s))
        = calls (fold (entry_step cm v) (entries v) s) @ cs2"
    using target_step_calls by blast
  then have "Query pl e b \<in> set (calls (reconcile cm v s))"
    using b by (simp add: reconcile_eq)
  then show ?thesis ..
qed

lemma main_Inr:
  "prepare env p = Inr (v, z) \<Longrightarrow>
   main env cm p = finish env v z (reconcile cm v (start_state env z))"
  by (simp add: main_def)

lemma main_Inl: "prepare env p = Inl (e, cs) \<Longrightarrow> main env cm p = failed e cs env"
  by (simp add: main_def)

lemma finish_fields [simp]:
  "result (finish env v z s) = Inr (changed s)"
  "trace (finish env v z s) = calls s"
  "runtime_plane (after (finish env v z s)) = (runtime_plane env)(z := fw s)"
  "permanent_plane (after (finish env v z s)) =
     (if truthy (permanent v) then (permanent_plane env)(z := (fw_settings s, fw_target s))
      else permanent_plane env)"
  by (simp_all add: finish_def)

lemma failed_fields [simp]:
  "result (failed e cs env) = Inl e" "trace (failed e cs env) = cs" "after (failed e cs env) = env"
  by (simp_all add: failed_def)

lemma start_state_fields [simp]:
  "changed (start_state env z) = False"
  "fw (start_state env z) = runtime_plane env z"
  "fw_settings (start_state env z) = fst (permanent_plane env z)"
  "fw_target (start_state env z) = snd (permanent_plane env z)"
  "calls (start_state env z) = [Connect]"
  by (simp_all add: start_state_def)

text \<open>The trace of a run that reaches the modification part.\<close>

lemma main_trace:
  assumes "prepare env p = Inr (v, z)"
  shows "\<exists>cs. trace (main env cm p)
            = Connect # cs @ (if truthy (permanent v) then [Commit] else [])
          \<and> (\<forall>c\<in>set cs. possible_call cm v c)"
  using reconcile_calls [of cm v "start_state env z"] by (simp add: main_Inr [OF assms])

lemma possible_call_not_Commit: "possible_call cm v c \<Longrightarrow> c \<noteq> Commit \<and> c \<noteq> Connect"
  by (cases c) simp_all

lemma count_list_absent: "x \<notin> set xs \<Longrightarrow> count_list xs x = 0"
  by (induction xs) auto

text \<open>
  C6.  A run that reaches the modification part writes the zone settings back exactly
  once when \<^verbatim>\<open>permanent\<close> is true at that point, as its last call, and never
  otherwise; the additions and removals before it do not matter.
\<close>

theorem one_commit:
  "prepare env p = Inr (v, z) \<Longrightarrow>
   count_list (trace (main env cm p)) Commit = (if truthy (permanent v) then 1 else 0)
   \<and> (truthy (permanent v) \<longrightarrow> last (trace (main env cm p)) = Commit)"
proof -
  assume a: "prepare env p = Inr (v, z)"
  obtain cs where t: "trace (main env cm p)
            = Connect # cs @ (if truthy (permanent v) then [Commit] else [])"
    and c: "\<forall>c\<in>set cs. possible_call cm v c"
    using main_trace [OF a] by blast
  have "Commit \<notin> set cs" using c possible_call_not_Commit by blast
  then have "count_list cs Commit = 0" by (rule count_list_absent)
  then show ?thesis using t by simp
qed


theorem one_commit_witness:
  "count_list (trace (main env0 False req_three)) Commit = 1
   \<and> last (trace (main env0 False req_three)) = Commit
   \<and> length (filter mutating (trace (main env0 False req_three))) = 3"
proof -
  have p: "prepare env0 req_three = Inr (loc_three, ''public'')"
    by (simp add: run_defs req_three_def loc_three_def loc0_def)
  have "length (filter mutating (trace (main env0 False req_three))) = 3"
    by (simp add: run_defs req_three_def)
  then show ?thesis using one_commit [OF p, of False] by (simp add: loc_three_def truthy_def)
qed

lemma prepare_Inr:
  assumes "prepare env p = Inr (v, z)"
  shows "\<exists>v0 v1 fo. has_firewalld env \<and> read_params env p = Inr v0 \<and> validate v0 = Inr v1
           \<and> connect env v1 = Inr (fo, v) \<and> choose_zone env fo v = Inr z"
  using assms unfolding prepare_def
  by (simp split: if_splits sum.splits prod.splits)

lemma connect_connected:
  "connected env \<Longrightarrow> connect env v1 = Inr (fo, v) \<Longrightarrow> v = v1"
  by (simp add: connect_def split: if_splits)

lemma possible_call_off_permanent:
  "possible_call cm v c \<Longrightarrow> \<not> truthy (permanent v) \<Longrightarrow> \<not> on_permanent c"
  by (cases c) (auto simp: gate_def split: plane.splits)

text \<open>
  C10, as the claim states it, fails: with \<^verbatim>\<open>permanent\<close> unset, \<^verbatim>\<open>offline: true\<close> and
  the daemon not running, lines 357 to 360 set \<^verbatim>\<open>runtime\<close> to false and \<^verbatim>\<open>permanent\<close>
  to true; the permanent plane is queried, changed and written back.
\<close>

theorem unset_permanent_offline_fallback:
  "permanent (req0\<lparr>service := [''http''], runtime := Some False, offline := Some True\<rparr>) = None
   \<and> trace (main env_down False (req0\<lparr>service := [''http''], runtime := Some False, offline := Some True\<rparr>))
     = [Connect, Query Permanent (EService ''http'') False, Add Permanent (EService ''http'') None,
        Commit]
   \<and> permanent_plane (after (main env_down False
        (req0\<lparr>service := [''http''], runtime := Some False, offline := Some True\<rparr>))) ''public''
     = ({EService ''http''}, ''default'')"
  by (simp add: run_defs env_down_def)

text \<open>
  C10, amended.  When the daemon is running and \<^verbatim>\<open>permanent\<close> is unset, the
  modification part runs with \<^verbatim>\<open>runtime\<close> true, whatever the caller gave, makes no call
  on the permanent plane (no query, addition, removal, target call or write-back), and
  leaves the stored settings as they were.
\<close>

theorem unset_permanent_connected:
  "connected env \<Longrightarrow> permanent p = None \<Longrightarrow> prepare env p = Inr (v, z) \<Longrightarrow>
   runtime v = Some True \<and> permanent v = None
   \<and> (\<forall>c\<in>set (trace (main env cm p)). \<not> on_permanent c)
   \<and> permanent_plane (after (main env cm p)) = permanent_plane env"
proof -
  assume con: "connected env" and un: "permanent p = None" and pr: "prepare env p = Inr (v, z)"
  obtain v0 v1 fo where r: "read_params env p = Inr v0" and va: "validate v0 = Inr v1"
    and co: "connect env v1 = Inr (fo, v)"
    using prepare_Inr [OF pr] by blast
  have "permanent v0 = None" using read_params_fields(10) [OF r] un by simp
  then have "v1 = v0\<lparr>runtime := Some True\<rparr>" using va by (rule validate_unset_permanent)
  moreover have "v = v1" using con co by (rule connect_connected)
  ultimately have v: "runtime v = Some True" "permanent v = None"
    using \<open>permanent v0 = None\<close> by simp_all
  then have nt: "\<not> truthy (permanent v)" by (simp add: truthy_def)
  obtain cs where t: "trace (main env cm p) = Connect # cs" and c: "\<forall>c\<in>set cs. possible_call cm v c"
    using main_trace [OF pr, of cm] nt by auto
  have "\<forall>c\<in>set (trace (main env cm p)). \<not> on_permanent c"
    using t c nt possible_call_off_permanent by auto
  moreover have "permanent_plane (after (main env cm p)) = permanent_plane env"
    using nt by (simp add: main_Inr [OF pr])
  ultimately show ?thesis using v by simp
qed

theorem unset_permanent_connected_witness:
  "trace (main env0 False (req0\<lparr>service := [''http''], runtime := Some False\<rparr>))
     = [Connect, Query Runtime (EService ''http'') False, Add Runtime (EService ''http'') (Some 0)]
   \<and> permanent_plane (after (main env0 False (req0\<lparr>service := [''http''], runtime := Some False\<rparr>)))
     = permanent_plane env0"
proof -
  have p: "prepare env0 (req0\<lparr>service := [''http''], runtime := Some False\<rparr>)
      = Inr (loc0\<lparr>service := [''http''], runtime := Some True\<rparr>, ''public'')"
    by (simp add: run_defs loc0_def)
  have c: "connected env0" by (simp add: env0_def)
  have u: "permanent (req0\<lparr>service := [''http''], runtime := Some False\<rparr>) = None"
    by (simp add: req0_def)
  have "trace (main env0 False (req0\<lparr>service := [''http''], runtime := Some False\<rparr>))
     = [Connect, Query Runtime (EService ''http'') False, Add Runtime (EService ''http'') (Some 0)]"
    by (simp add: run_defs)
  then show ?thesis using unset_permanent_connected [OF c u p, of False] by simp
qed


lemma prepare_validation_failure:
  "has_firewalld env \<Longrightarrow> read_params env p = Inr v0 \<Longrightarrow> validate v0 = Inl e \<Longrightarrow>
   prepare env p = Inl (e, [])"
  by (simp add: prepare_def)

lemma prepare_early_failure:
  "\<not> has_firewalld env \<or> (\<exists>e. read_params env p = Inl e) \<Longrightarrow> \<exists>e. prepare env p = Inl (e, [])"
  by (auto simp: prepare_def)

lemma validate_disabled:
  assumes "state v = Disabled"
    and "timeout v > 0 \<or> truthy (masquerade v) \<or> truthy (icmp_block_inversion v)"
  shows "\<exists>e. validate v = Inl e
           \<and> (\<not> no_plane v \<and> \<not> nothing_set v \<longrightarrow> e \<in> IncompatibleWithDisabled)"
proof -
  have "check_disabled v \<noteq> None" using assms by (simp add: check_disabled_None)
  then obtain e where e: "check_disabled v = Some e" by blast
  then have "e \<in> IncompatibleWithDisabled" by (rule check_disabled_range)
  then show ?thesis using e by (simp add: validate_eq)
qed

text \<open>
  C9, as the claim states it, fails: \<^verbatim>\<open>state: disabled\<close> with \<^verbatim>\<open>timeout: 5\<close> and nothing
  else set fails at line 296, which is not IncompatibleWithDisabled; and a negative
  timeout, which is not zero, passes line 304.
\<close>

theorem disabled_restrictions_preempted:
  "result (main env0 False (req0\<lparr>timeout := 5, state := Disabled\<rparr>)) = Inl NothingSet
   \<and> NothingSet \<notin> IncompatibleWithDisabled
   \<and> timeout (req0\<lparr>service := [''http''], timeout := - 1, state := Disabled\<rparr>) \<noteq> 0
   \<and> result (main env0 False (req0\<lparr>service := [''http''], timeout := - 1, state := Disabled\<rparr>))
       = Inr False"
  by (simp add: run_defs IncompatibleWithDisabled_def)


text \<open>
  C9, amended.  With \<^verbatim>\<open>state: disabled\<close>, a positive timeout, a true masquerade or a
  true icmp_block_inversion makes the run fail before any call is made, the connection
  included, and with the backend untouched.  The failure is IncompatibleWithDisabled
  when the request parses, passes the plane selection and has something set.
\<close>

theorem disabled_restrictions:
  "state p = Disabled \<Longrightarrow>
   timeout p > 0 \<or> truthy (masquerade p) \<or> truthy (icmp_block_inversion p) \<Longrightarrow>
   (\<exists>e. result (main env cm p) = Inl e) \<and> trace (main env cm p) = [] \<and> after (main env cm p) = env
   \<and> (\<forall>v. has_firewalld env \<and> read_params env p = Inr v
          \<and> \<not> (permanent p = Some False \<and> runtime p = Some False \<and> offline p = Some False)
          \<and> \<not> nothing_set v
        \<longrightarrow> (\<exists>e\<in>IncompatibleWithDisabled. result (main env cm p) = Inl e))"
proof -
  assume st: "state p = Disabled"
    and any: "timeout p > 0 \<or> truthy (masquerade p) \<or> truthy (icmp_block_inversion p)"
  have fails: "\<exists>e. prepare env p = Inl (e, [])"
  proof (cases "has_firewalld env \<and> (\<exists>v. read_params env p = Inr v)")
    case True
    then obtain v where h: "has_firewalld env" and r: "read_params env p = Inr v" by blast
    have "state v = Disabled"
      "timeout v > 0 \<or> truthy (masquerade v) \<or> truthy (icmp_block_inversion v)"
      using st any read_params_fields [OF r] by simp_all
    then obtain e where "validate v = Inl e" using validate_disabled by blast
    then show ?thesis using prepare_validation_failure [OF h r] by blast
  next
    case False
    then have "\<not> has_firewalld env \<or> (\<exists>e. read_params env p = Inl e)"
      by (cases "read_params env p") auto
    then show ?thesis by (rule prepare_early_failure)
  qed
  then obtain e where "prepare env p = Inl (e, [])" ..
  then have m: "main env cm p = failed e [] env" by (rule main_Inl)
  have "\<forall>v. has_firewalld env \<and> read_params env p = Inr v
          \<and> \<not> (permanent p = Some False \<and> runtime p = Some False \<and> offline p = Some False)
          \<and> \<not> nothing_set v
        \<longrightarrow> (\<exists>e\<in>IncompatibleWithDisabled. result (main env cm p) = Inl e)"
  proof (intro allI impI)
    fix v
    assume a: "has_firewalld env \<and> read_params env p = Inr v
          \<and> \<not> (permanent p = Some False \<and> runtime p = Some False \<and> offline p = Some False)
          \<and> \<not> nothing_set v"
    then have h: "has_firewalld env" and r: "read_params env p = Inr v" by simp_all
    have np: "\<not> no_plane v" using a read_params_fields [OF r] by (simp add: no_plane_def)
    have "state v = Disabled"
      "timeout v > 0 \<or> truthy (masquerade v) \<or> truthy (icmp_block_inversion v)"
      using st any read_params_fields [OF r] by simp_all
    then obtain e' where e': "validate v = Inl e'"
      "\<not> no_plane v \<and> \<not> nothing_set v \<longrightarrow> e' \<in> IncompatibleWithDisabled"
      using validate_disabled by blast
    have "main env cm p = failed e' [] env"
      using prepare_validation_failure [OF h r e'(1)] by (rule main_Inl)
    then show "\<exists>e\<in>IncompatibleWithDisabled. result (main env cm p) = Inl e"
      using e'(2) np a by auto
  qed
  then show ?thesis using m by simp
qed

theorem disabled_restrictions_witness:
  "result (main env0 False (req0\<lparr>service := [''http''], timeout := 5, state := Disabled\<rparr>))
     = Inl TimeoutWithDisabled
   \<and> trace (main env0 False (req0\<lparr>service := [''http''], timeout := 5, state := Disabled\<rparr>)) = []
   \<and> after (main env0 False (req0\<lparr>service := [''http''], timeout := 5, state := Disabled\<rparr>)) = env0"
proof -
  have "state (req0\<lparr>service := [''http''], timeout := 5, state := Disabled\<rparr>) = Disabled"
    by simp
  moreover have "timeout (req0\<lparr>service := [''http''], timeout := 5, state := Disabled\<rparr>) > 0"
    by simp
  moreover have "result (main env0 False (req0\<lparr>service := [''http''], timeout := 5, state := Disabled\<rparr>))
     = Inl TimeoutWithDisabled"
    by (simp add: run_defs)
  ultimately show ?thesis
    using disabled_restrictions [of "req0\<lparr>service := [''http''], timeout := 5, state := Disabled\<rparr>"
        env0 False]
    by simp
qed

section \<open>Sources and the runtime gate\<close>

lemma prepare_fields:
  assumes "prepare env p = Inr (v, z)"
  shows "service v = service p" "masquerade v = masquerade p" "source v = source p"
    "interface v = interface p" "icmp_block v = icmp_block p"
    "icmp_block_inversion v = icmp_block_inversion p" "timeout v = timeout p"
    "target v = target p" "state v = state p"
proof -
  obtain v0 v1 fo where r: "read_params env p = Inr v0" and va: "validate v0 = Inr v1"
    and co: "connect env v1 = Inr (fo, v)"
    using prepare_Inr [OF assms] by blast
  have 1: "v1 = (if permanent v0 = None then v0\<lparr>runtime := Some True\<rparr> else v0)"
    using va by (simp add: validate_eq split: if_splits option.splits)
  have 2: "v = v1 \<or> v = v1\<lparr>runtime := Some False, permanent := Some True\<rparr>"
    using co by (auto simp: connect_def split: if_splits)
  show "service v = service p" "masquerade v = masquerade p" "source v = source p"
    "interface v = interface p" "icmp_block v = icmp_block p"
    "icmp_block_inversion v = icmp_block_inversion p" "timeout v = timeout p"
    "target v = target p" "state v = state p"
    using 1 2 read_params_fields [OF r] by auto
qed

lemma source_in_entries: "i \<in> set (source v) \<Longrightarrow> ESource i \<in> set (entries v)"
  by (simp add: entries_def)

lemma source_facts [simp]:
  "rt_gate v (ESource i) = True"
  "gate v Runtime (ESource i) = True"
  "gate v Permanent e = truthy (permanent v)"
  "wanted v (ESource i) = (state v = Enabled)"
  by (simp_all add: rt_gate_def gate_def wanted_def)

lemma possible_runtime_call:
  "possible_call cm v c \<Longrightarrow> on_runtime c \<Longrightarrow> \<not> truthy (runtime v) \<Longrightarrow>
   \<exists>i. entry_of c = Some (ESource i)"
  by (cases c) (auto simp: gate_def rt_gate_def split: entry.splits)

text \<open>
  C8.  In a run that reaches the modification part, every source of the request is
  queried on the runtime plane whatever \<^verbatim>\<open>runtime\<close> is, and outside check mode it is
  then present there exactly when the state is enabled.  When \<^verbatim>\<open>runtime\<close> is false the
  sources are the only entries with a runtime call; when it is true every entry is
  queried there.  On the permanent plane the sources are queried when \<^verbatim>\<open>permanent\<close> is
  true, and no call at all is made there when it is false.
\<close>

theorem source_runtime_not_gated:
  "prepare env p = Inr (v, z) \<Longrightarrow>
   (\<forall>i\<in>set (source p). \<exists>b. Query Runtime (ESource i) b \<in> set (trace (main env cm p)))
   \<and> (\<forall>i\<in>set (source p).
         (ESource i \<in> runtime_plane (after (main env False p)) z) = (state p = Enabled))
   \<and> (\<not> truthy (runtime v) \<longrightarrow>
        (\<forall>c\<in>set (trace (main env cm p)). on_runtime c \<longrightarrow> (\<exists>i. entry_of c = Some (ESource i))))
   \<and> (truthy (runtime v) \<longrightarrow>
        (\<forall>e\<in>set (entries v). \<exists>b. Query Runtime e b \<in> set (trace (main env cm p))))
   \<and> (\<not> truthy (permanent v) \<longrightarrow> (\<forall>c\<in>set (trace (main env cm p)). \<not> on_permanent c))
   \<and> (truthy (permanent v) \<longrightarrow>
        (\<forall>i\<in>set (source p). \<exists>b. Query Permanent (ESource i) b \<in> set (trace (main env cm p))))"
proof -
  assume pr: "prepare env p = Inr (v, z)"
  note f = prepare_fields [OF pr]
  have tr: "trace (main env cm p) = calls (reconcile cm v (start_state env z))"
    by (simp add: main_Inr [OF pr])
  obtain cs where t: "trace (main env cm p)
            = Connect # cs @ (if truthy (permanent v) then [Commit] else [])"
    and c: "\<forall>c\<in>set cs. possible_call cm v c"
    using main_trace [OF pr] by blast
  have 1: "\<forall>i\<in>set (source p). \<exists>b. Query Runtime (ESource i) b \<in> set (trace (main env cm p))"
    unfolding tr using reconcile_queries [of _ v Runtime] source_in_entries [of _ v] f(3)
    by simp
  have 2: "\<forall>i\<in>set (source p).
         (ESource i \<in> runtime_plane (after (main env False p)) z) = (state p = Enabled)"
    using source_in_entries [of _ v] f(3) f(9)
    by (simp add: main_Inr [OF pr] reconcile_fw)
  have 3: "\<not> truthy (runtime v) \<longrightarrow>
        (\<forall>c\<in>set (trace (main env cm p)). on_runtime c \<longrightarrow> (\<exists>i. entry_of c = Some (ESource i)))"
    using t c possible_runtime_call [of cm v] by auto
  have 4: "truthy (runtime v) \<longrightarrow>
        (\<forall>e\<in>set (entries v). \<exists>b. Query Runtime e b \<in> set (trace (main env cm p)))"
    unfolding tr using reconcile_queries [of _ v Runtime]
    by (simp add: gate_def rt_gate_def split: entry.splits)
  have 5: "\<not> truthy (permanent v) \<longrightarrow> (\<forall>c\<in>set (trace (main env cm p)). \<not> on_permanent c)"
    using t c possible_call_off_permanent [of cm v] by auto
  have 6: "truthy (permanent v) \<longrightarrow>
        (\<forall>i\<in>set (source p). \<exists>b. Query Permanent (ESource i) b \<in> set (trace (main env cm p)))"
    unfolding tr using reconcile_queries [of _ v Permanent] source_in_entries [of _ v] f(3)
    by simp
  show ?thesis using 1 2 3 4 5 6 by blast
qed


theorem source_runtime_not_gated_witness:
  "trace (main env0 False req_source)
     = [Connect,
        Query Permanent (EService ''http'') False, Add Permanent (EService ''http'') None,
        Query Runtime (ESource ''10.0.0.1'') False, Add Runtime (ESource ''10.0.0.1'') None,
        Query Permanent (ESource ''10.0.0.1'') False, Add Permanent (ESource ''10.0.0.1'') None,
        Commit]
   \<and> ESource ''10.0.0.1'' \<in> runtime_plane (after (main env0 False req_source)) ''public''"
proof -
  have p: "prepare env0 req_source = Inr (loc_source, ''public'')"
    by (simp add: run_defs req_source_def loc_source_def loc0_def)
  have t: "trace (main env0 False req_source)
     = [Connect,
        Query Permanent (EService ''http'') False, Add Permanent (EService ''http'') None,
        Query Runtime (ESource ''10.0.0.1'') False, Add Runtime (ESource ''10.0.0.1'') None,
        Query Permanent (ESource ''10.0.0.1'') False, Add Permanent (ESource ''10.0.0.1'') None,
        Commit]"
    by (simp add: run_defs req_source_def)
  have "ESource ''10.0.0.1'' \<in> runtime_plane (after (main env0 False req_source)) ''public''"
    using source_runtime_not_gated [OF p, of False] by (simp add: req_source_def req0_def)
  then show ?thesis using t by simp
qed


section \<open>Running twice\<close>

lemma parse_rich_rule_ignores_planes:
  "parse_rich_rule (env\<lparr>runtime_plane := a, permanent_plane := b\<rparr>) = parse_rich_rule env"
  by (simp add: parse_rich_rule_def fun_eq_iff)

lemma read_params_ignores_planes:
  "read_params (env\<lparr>runtime_plane := a, permanent_plane := b\<rparr>) p = read_params env p"
  by (simp only: read_params_def parse_rich_rule_ignores_planes)

lemma connect_ignores_planes:
  "connect (env\<lparr>runtime_plane := a, permanent_plane := b\<rparr>) v = connect env v"
  by (simp add: connect_def)

lemma choose_zone_ignores_planes:
  "choose_zone (env\<lparr>runtime_plane := a, permanent_plane := b\<rparr>) fo v = choose_zone env fo v"
  by (simp add: choose_zone_def split: option.splits)

lemma prepare_ignores_planes:
  "prepare (env\<lparr>runtime_plane := a, permanent_plane := b\<rparr>) p = prepare env p"
proof -
  have "has_firewalld (env\<lparr>runtime_plane := a, permanent_plane := b\<rparr>) = has_firewalld env"
    by simp
  then show ?thesis
    by (simp only: prepare_def read_params_ignores_planes connect_ignores_planes
          choose_zone_ignores_planes)
qed

lemma after_finish:
  "after (finish env v z s)
     = env\<lparr>runtime_plane := (runtime_plane env)(z := fw s),
           permanent_plane :=
             (if truthy (permanent v)
              then (permanent_plane env)(z := (fw_settings s, fw_target s))
              else permanent_plane env)\<rparr>"
  by (simp add: finish_def)

lemma counted_is_disagrees: "state v = Enabled \<Longrightarrow> counted v s e = disagrees v s e"
  by (cases e) (auto simp: counted_def disagrees_def wanted_def rt_rm_changed_def)

lemma list_ex_counted_enabled:
  "state v = Enabled \<Longrightarrow> list_ex (counted v s) es = list_ex (disagrees v s) es"
  by (simp add: list_ex_iff counted_is_disagrees)

text \<open>After a run outside check mode nothing is left that would count.\<close>

lemma settled_after_run:
  assumes "fw s' = fw (reconcile False v s)"
    and "truthy (permanent v) \<Longrightarrow> fw_settings s' = fw_settings (reconcile False v s)"
    and "truthy (permanent v) \<Longrightarrow> fw_target s' = fw_target (reconcile False v s)"
  shows "\<not> list_ex (counted v s') (entries v) \<and> \<not> target_disagrees v s'"
proof -
  have "\<not> counted v s' e" if "e \<in> set (entries v)" for e
    using that assms(1,2) by (auto simp: counted_def reconcile_fw reconcile_fw_settings)
  moreover have "\<not> target_disagrees v s'"
    using assms(3) by (auto simp: target_disagrees_def reconcile_target split: option.splits)
  ultimately show ?thesis by (simp add: list_ex_iff)
qed

text \<open>
  C7.  For a request with state enabled that reaches the modification part, outside
  check mode: the first run reports \<^verbatim>\<open>changed\<close> exactly when a plane whose gate is open
  disagrees with the request on some entry or on the target, and a second run of the
  same request on the backend the first run left reports \<^verbatim>\<open>changed=False\<close>.
\<close>

theorem enabled_idempotent:
  "prepare env p = Inr (v, z) \<Longrightarrow> state p = Enabled \<Longrightarrow>
   result (main env False p) = Inr (any_disagreement v (start_state env z))
   \<and> result (main (after (main env False p)) False p) = Inr False"
proof -
  assume pr: "prepare env p = Inr (v, z)" and st: "state p = Enabled"
  have en: "state v = Enabled" using prepare_fields(9) [OF pr] st by simp
  let ?s = "reconcile False v (start_state env z)"
  let ?env = "after (main env False p)"
  have 1: "result (main env False p) = Inr (any_disagreement v (start_state env z))"
    by (simp add: main_Inr [OF pr] reconcile_changed any_disagreement_def
          list_ex_counted_enabled [OF en])
  have a: "?env = env\<lparr>runtime_plane := (runtime_plane env)(z := fw ?s),
           permanent_plane :=
             (if truthy (permanent v)
              then (permanent_plane env)(z := (fw_settings ?s, fw_target ?s))
              else permanent_plane env)\<rparr>"
    by (simp add: main_Inr [OF pr] after_finish)
  have pr2: "prepare ?env p = Inr (v, z)"
    unfolding a prepare_ignores_planes by (rule pr)
  have "\<not> list_ex (counted v (start_state ?env z)) (entries v)
      \<and> \<not> target_disagrees v (start_state ?env z)"
  proof (rule settled_after_run [where s = "start_state env z"])
    show "fw (start_state ?env z) = fw ?s" by (simp add: a)
    show "fw_settings (start_state ?env z) = fw_settings ?s" if "truthy (permanent v)"
      using that by (simp add: a)
    show "fw_target (start_state ?env z) = fw_target ?s" if "truthy (permanent v)"
      using that by (simp add: a)
  qed
  then have 2: "result (main ?env False p) = Inr False"
    by (simp add: main_Inr [OF pr2] reconcile_changed)
  show ?thesis using 1 2 by simp
qed


theorem enabled_idempotent_witness:
  "result (main env0 False req_three) = Inr True
   \<and> result (main (after (main env0 False req_three)) False req_three) = Inr False"
proof -
  have p: "prepare env0 req_three = Inr (loc_three, ''public'')"
    by (simp add: run_defs req_three_def loc_three_def loc0_def)
  have s: "state req_three = Enabled" by (simp add: req_three_def req0_def)
  have "any_disagreement loc_three (start_state env0 ''public'')"
    by (simp add: any_disagreement_def entries_def disagrees_def loc_three_def loc0_def
          start_state_def env0_def truthy_def wanted_def)
  then show ?thesis using enabled_idempotent [OF p s] by simp
qed


section \<open>What decides the result, and check mode\<close>

lemma prepare_Inl_calls: "prepare env p = Inl (e, cs) \<Longrightarrow> cs = [] \<or> cs = [Connect]"
  by (auto simp: prepare_def split: if_splits sum.splits prod.splits)

lemma possible_call_check_mode: "possible_call True v c \<Longrightarrow> \<not> mutating c"
  by (cases c) simp_all

text \<open>
  The result of a run that reaches the modification part, in either mode: \<^verbatim>\<open>changed\<close>
  is true exactly when some entry counts against the planes as they were or the target
  differs.
\<close>

theorem changed_characterised:
  "prepare env p = Inr (v, z) \<Longrightarrow>
   result (main env cm p)
     = Inr (list_ex (counted v (start_state env z)) (entries v)
            \<or> target_disagrees v (start_state env z))"
  by (simp add: main_Inr reconcile_changed)

theorem changed_characterised_witness:
  "result (main env0 True req_three) = Inr True"
proof -
  have p: "prepare env0 req_three = Inr (loc_three, ''public'')"
    by (simp add: run_defs req_three_def loc_three_def loc0_def)
  have "list_ex (counted loc_three (start_state env0 ''public'')) (entries loc_three)"
    by (simp add: entries_def counted_def loc_three_def loc0_def
          start_state_def env0_def truthy_def wanted_def)
  then show ?thesis using changed_characterised [OF p, of True] by simp
qed

text \<open>
  Check mode but for the write-back: the same result as outside check mode, no
  addition, removal or target change, and both planes as they were.
\<close>

theorem check_mode_pure:
  "result (main env True p) = result (main env False p)
   \<and> (\<forall>c\<in>set (trace (main env True p)). \<not> mutating c)
   \<and> runtime_plane (after (main env True p)) = runtime_plane env
   \<and> permanent_plane (after (main env True p)) = permanent_plane env"
proof (cases "prepare env p")
  case (Inl a)
  obtain e cs where a: "a = (e, cs)" by (cases a)
  have "cs = [] \<or> cs = [Connect]" using Inl a prepare_Inl_calls by blast
  then show ?thesis using Inl a by (auto simp: main_def)
next
  case (Inr b)
  obtain v z where b: "b = (v, z)" by (cases b)
  have pr: "prepare env p = Inr (v, z)" using Inr b by simp
  obtain cs where t: "trace (main env True p)
            = Connect # cs @ (if truthy (permanent v) then [Commit] else [])"
    and c: "\<forall>c\<in>set cs. possible_call True v c"
    using main_trace [OF pr] by blast
  have 1: "\<forall>c\<in>set (trace (main env True p)). \<not> mutating c"
    using t c possible_call_check_mode by auto
  have 2: "result (main env True p) = result (main env False p)"
    by (simp add: main_Inr [OF pr] reconcile_changed)
  have 3: "runtime_plane (after (main env True p)) = runtime_plane env"
    by (simp add: main_Inr [OF pr])
  have 4: "permanent_plane (after (main env True p)) = permanent_plane env"
    by (simp add: main_Inr [OF pr] reconcile_target)
  show ?thesis using 1 2 3 4 by simp
qed

theorem check_mode_pure_witness:
  "result (main env0 True req_three) = result (main env0 False req_three)
   \<and> filter mutating (trace (main env0 True req_three)) = []
   \<and> permanent_plane (after (main env0 True req_three)) = permanent_plane env0"
proof -
  have "filter mutating (trace (main env0 True req_three)) = []"
    by (simp add: run_defs req_three_def)
  then show ?thesis using check_mode_pure [of env0 req_three] by simp
qed

section \<open>Executed actions and the changed flag\<close>

lemma accounted_refl: "accounted cm s s"
  by (simp add: accounted_def)

lemma accounted_trans:
  assumes "accounted cm s s'" "accounted cm s' s''"
  shows "accounted cm s s''"
proof -
  obtain cs1 where 1: "calls s' = calls s @ cs1" "changed s \<longrightarrow> changed s'"
    "(\<exists>c\<in>set cs1. mutating c \<and> \<not> runtime_service_removal c) \<longrightarrow> changed s'"
    "\<not> cm \<and> changed s' \<longrightarrow> changed s \<or> (\<exists>c\<in>set cs1. mutating c)"
    using assms(1) unfolding accounted_def by blast
  obtain cs2 where 2: "calls s'' = calls s' @ cs2" "changed s' \<longrightarrow> changed s''"
    "(\<exists>c\<in>set cs2. mutating c \<and> \<not> runtime_service_removal c) \<longrightarrow> changed s''"
    "\<not> cm \<and> changed s'' \<longrightarrow> changed s' \<or> (\<exists>c\<in>set cs2. mutating c)"
    using assms(2) unfolding accounted_def by blast
  have "calls s'' = calls s @ (cs1 @ cs2)" using 1(1) 2(1) by simp
  moreover have "changed s \<longrightarrow> changed s''" using 1(2) 2(2) by blast
  moreover have "(\<exists>c\<in>set (cs1 @ cs2). mutating c \<and> \<not> runtime_service_removal c) \<longrightarrow> changed s''"
    using 1(3) 2(2) 2(3) by auto
  moreover have "\<not> cm \<and> changed s'' \<longrightarrow> changed s \<or> (\<exists>c\<in>set (cs1 @ cs2). mutating c)"
    using 1(4) 2(4) by auto
  ultimately show ?thesis unfolding accounted_def by blast
qed

lemma accounted_entry_step: "accounted cm s (entry_step cm v e s)"
  by (cases e) (auto simp: accounted_def step_defs rt_rm_changed_def)

lemma accounted_fold: "accounted cm s (fold (entry_step cm v) es s)"
proof (induction es arbitrary: s)
  case Nil
  show ?case by (simp add: accounted_refl)
next
  case (Cons x xs)
  show ?case using accounted_trans [OF accounted_entry_step Cons.IH] by simp
qed

lemma accounted_target_step: "accounted cm s (target_step cm v s)"
  by (auto simp: accounted_def target_step_def set_target_def split: option.splits)

lemma accounted_apply_permanent: "accounted cm s (apply_permanent v s)"
  by (simp add: accounted_def)

lemma accounted_reconcile: "accounted cm s (reconcile cm v s)"
  unfolding reconcile_eq
  by (rule accounted_trans [OF accounted_trans [OF accounted_fold accounted_target_step]
        accounted_apply_permanent])

text \<open>
  In a run that reaches the modification part, every addition, removal or target change
  that is made, the runtime removal of a service excepted, comes with \<^verbatim>\<open>changed=True\<close>;
  and outside check mode \<^verbatim>\<open>changed=True\<close> comes with at least one of them.
\<close>

theorem executed_actions_and_changed:
  "prepare env p = Inr (v, z) \<Longrightarrow>
   (\<forall>c\<in>set (trace (main env cm p)).
      mutating c \<and> \<not> runtime_service_removal c \<longrightarrow> result (main env cm p) = Inr True)
   \<and> (result (main env False p) = Inr True \<longrightarrow> (\<exists>c\<in>set (trace (main env False p)). mutating c))"
proof -
  assume pr: "prepare env p = Inr (v, z)"
  let ?s = "start_state env z"
  obtain cs where 1: "calls (reconcile cm v ?s) = Connect # cs"
    and 2: "(\<exists>c\<in>set cs. mutating c \<and> \<not> runtime_service_removal c)
              \<longrightarrow> changed (reconcile cm v ?s)"
    using accounted_reconcile [of cm ?s v] unfolding accounted_def by auto
  obtain cs' where 3: "calls (reconcile False v ?s) = Connect # cs'"
    and 4: "changed (reconcile False v ?s) \<longrightarrow> (\<exists>c\<in>set cs'. mutating c)"
    using accounted_reconcile [of False ?s v] unfolding accounted_def by auto
  have "\<forall>c\<in>set (trace (main env cm p)).
      mutating c \<and> \<not> runtime_service_removal c \<longrightarrow> result (main env cm p) = Inr True"
    using 1 2 by (auto simp: main_Inr [OF pr])
  moreover have "result (main env False p) = Inr True
      \<longrightarrow> (\<exists>c\<in>set (trace (main env False p)). mutating c)"
    using 3 4 by (auto simp: main_Inr [OF pr])
  ultimately show ?thesis by blast
qed


theorem executed_actions_and_changed_witness:
  "result (main env_http False (req0\<lparr>port := [''80/tcp''], state := Disabled\<rparr>)) = Inr True"
proof -
  have p: "prepare env_http (req0\<lparr>port := [''80/tcp''], state := Disabled\<rparr>)
      = Inr (loc0\<lparr>port := [(''80'', ''tcp'')], state := Disabled, runtime := Some True\<rparr>, ''public'')"
    by (simp add: run_defs env_http_def loc0_def)
  have t: "Remove Runtime (EPort ''80'' ''tcp'')
      \<in> set (trace (main env_http False (req0\<lparr>port := [''80/tcp''], state := Disabled\<rparr>)))"
    by (simp add: run_defs env_http_def)
  have "\<forall>c\<in>set (trace (main env_http False (req0\<lparr>port := [''80/tcp''], state := Disabled\<rparr>))).
      mutating c \<and> \<not> runtime_service_removal c
      \<longrightarrow> result (main env_http False (req0\<lparr>port := [''80/tcp''], state := Disabled\<rparr>)) = Inr True"
    using executed_actions_and_changed [OF p, of False] by (rule conjunct1)
  then have "mutating (Remove Runtime (EPort ''80'' ''tcp''))
      \<and> \<not> runtime_service_removal (Remove Runtime (EPort ''80'' ''tcp''))
      \<longrightarrow> result (main env_http False (req0\<lparr>port := [''80/tcp''], state := Disabled\<rparr>)) = Inr True"
    using t by (rule bspec)
  then show ?thesis by simp
qed


section \<open>The queries of a run in check mode\<close>

lemma entry_step_queries_eq:
  "filter is_query (calls (entry_step cm v e s))
     = filter is_query (calls s) @ step_queries v s e"
  by (auto simp: step_defs step_queries_def)

lemma step_queries_other:
  "e \<noteq> x \<Longrightarrow> step_queries v (entry_step cm v x s) e = step_queries v s e"
  by (cases cm) (auto simp: step_queries_def entry_step_fw entry_step_fw_settings)

lemma fold_queries_eq:
  "distinct es \<Longrightarrow>
   filter is_query (calls (fold (entry_step cm v) es s))
     = filter is_query (calls s) @ concat (map (step_queries v s) es)"
proof (induction es arbitrary: s)
  case Nil
  show ?case by simp
next
  case (Cons x xs)
  have "\<forall>e\<in>set xs. e \<noteq> x" using Cons.prems by auto
  then have "\<forall>e\<in>set xs. step_queries v (entry_step cm v x s) e = step_queries v s e"
    by (simp add: step_queries_other)
  then have m: "map (step_queries v (entry_step cm v x s)) xs = map (step_queries v s) xs"
    by (simp only: map_eq_conv)
  have "distinct xs" using Cons.prems by simp
  then have "filter is_query (calls (fold (entry_step cm v) (x # xs) s))
      = filter is_query (calls (entry_step cm v x s))
        @ concat (map (step_queries v (entry_step cm v x s)) xs)"
    using Cons.IH by simp
  also have "\<dots> = filter is_query (calls s) @ concat (map (step_queries v s) (x # xs))"
    unfolding m entry_step_queries_eq by simp
  finally show ?case .
qed

lemma target_step_queries_eq:
  "filter is_query (calls (target_step cm v s))
     = filter is_query (calls s)
       @ (if truthy (permanent v) \<and> target v \<noteq> None then [GetTarget (fw_target s)] else [])"
  by (auto simp: target_step_def set_target_def split: option.splits)

lemma reconcile_queries_eq:
  "distinct (entries v) \<Longrightarrow>
   filter is_query (calls (reconcile cm v s))
     = filter is_query (calls s) @ concat (map (step_queries v s) (entries v))
       @ (if truthy (permanent v) \<and> target v \<noteq> None then [GetTarget (fw_target s)] else [])"
  by (simp add: reconcile_eq target_step_queries_eq fold_queries_eq)

text \<open>
  When no entry occurs twice in the request, a run in check mode makes the same queries
  with the same answers as the run outside check mode.
\<close>

theorem same_queries_without_repeats:
  "prepare env p = Inr (v, z) \<Longrightarrow> distinct (entries v) \<Longrightarrow>
   filter is_query (trace (main env True p)) = filter is_query (trace (main env False p))"
  by (simp add: main_Inr reconcile_queries_eq)

theorem same_queries_without_repeats_witness:
  "filter is_query (trace (main env0 True req_three))
     = filter is_query (trace (main env0 False req_three))"
proof -
  have p: "prepare env0 req_three = Inr (loc_three, ''public'')"
    by (simp add: run_defs req_three_def loc_three_def loc0_def)
  have d: "distinct (entries loc_three)"
    by (simp add: entries_def loc_three_def loc0_def)
  show ?thesis using same_queries_without_repeats [OF p d] .
qed

text \<open>With an entry given twice, the second answer differs between the two modes.\<close>

lemma repeated_entry_queries:
  "filter is_query (trace (main env0 True (req0\<lparr>service := [''http'', ''http'']\<rparr>)))
     = [Query Runtime (EService ''http'') False, Query Runtime (EService ''http'') False]
   \<and> filter is_query (trace (main env0 False (req0\<lparr>service := [''http'', ''http'']\<rparr>)))
     = [Query Runtime (EService ''http'') False, Query Runtime (EService ''http'') True]"
  by (simp add: run_defs)

end
